theory Spec2Isabelle
  imports Main "HOL-Library.Word" "HOL-Library.Multiset" "HOL-Library.Sublist"
begin

section \<open>Byte strings and magic numbers\<close>

text \<open>
  A Python \<open>bytes\<close> object is a list of 8-bit characters.  Literals that the source writes
  as text (\<open>b'RIFF'\<close>) are written as text here, bytes it writes as \<open>\x..\<close> escapes are
  written \<open>CHR 0x..\<close>.
\<close>

type_synonym bytes = "char list"

definition MESH_MAGIC :: bytes where
  "MESH_MAGIC = [CHR 0x34, CHR 0x80, CHR 0xC8, CHR 0xBB]"

definition PNG_MAGIC :: bytes where
  "PNG_MAGIC = CHR 0x89 # ''PNG''"

definition KTX_MAGIC :: bytes where
  "KTX_MAGIC = CHR 0xAB # ''KTX 11'' @ [CHR 0xBB]"

definition ZSTD_MAGIC :: bytes where
  "ZSTD_MAGIC = [CHR 0x28, CHR 0xB5, CHR 0x2F, CHR 0xFD]"

definition TGA_TAIL_MAGIC :: bytes where
  "TGA_TAIL_MAGIC = ''TRUEVISION-XFILE.'' @ [CHR 0x00]"

section \<open>Content classifier\<close>

text \<open>
  \<open>detect_file_extension\<close> (identical in \<open>NpkUnlocker.py\<close>, \<open>NpkUnlock_GUI.py\<close> and
  \<open>PPKUnlocker.py\<close>).  A slice \<open>data[:n]\<close> is \<open>take n data\<close>, \<open>data[8:12]\<close> is
  \<open>take 4 (drop 8 data)\<close> and \<open>data[-n:]\<close>, taken only when \<open>len(data) >= n\<close>, is
  \<open>drop (length data - n) data\<close>.
\<close>

definition detect_file_extension :: "bytes \<Rightarrow> string" where
  "detect_file_extension data =
    (if data = [] then ''''
     else if length data \<ge> 4 \<and> take 4 data = MESH_MAGIC then ''.mesh''
     else if length data \<ge> 4 \<and> take 4 data = PNG_MAGIC then ''.png''
     else if length data \<ge> 8 \<and> take 8 data = KTX_MAGIC then ''.ktx''
     else if length data \<ge> 3 \<and> take 3 data = ''DDS'' then ''.dds''
     else if length data \<ge> 12 \<and> take 4 data = ''RIFF'' \<and> take 4 (drop 8 data) = ''WAVE''
       then ''.wem''
     else if length data \<ge> 4 \<and> take 4 data = ''BKHD'' then ''.bnk''
     else if length data \<ge> 4 \<and> take 4 data = ''AKPK'' then ''.npk''
     else if length data \<ge> 4 \<and> take 4 data = [CHR 0x28, CHR 0xB5, CHR 0x2F, CHR 0xFD]
       then ''.zst''
     else if length data \<ge> length TGA_TAIL_MAGIC
           \<and> drop (length data - length TGA_TAIL_MAGIC) data = TGA_TAIL_MAGIC then ''.tga''
     else '''')"

section \<open>Frame scanner\<close>

text \<open>
  Python's \<open>data.find(sub, start)\<close> for \<open>start \<ge> 0\<close>: the lowest index \<open>i \<ge> start\<close> with
  \<open>data[i:i+len(sub)] == sub\<close>, or \<open>-1\<close> (here \<open>None\<close>) when there is none.
\<close>

function find :: "bytes \<Rightarrow> bytes \<Rightarrow> nat \<Rightarrow> nat option" where
  "find data sub start =
    (if start + length sub > length data then None
     else if take (length sub) (drop start data) = sub then Some start
     else find data sub (Suc start))"
  by pat_completeness auto
termination
  by (relation "measure (\<lambda>(data, sub, start). Suc (length data) - start)") auto

declare find.simps [simp del]

text \<open>
  \<open>scan_zstd_frames\<close> of \<open>NpkUnlock_GUI.py\<close>; the same loop is inlined in
  \<open>extract_zstd_container\<close> of \<open>NpkUnlocker.py\<close>.  \<open>scan_from data pos\<close> is the
  loop entered with the variable \<open>pos\<close>, and returns what the loop still appends to
  \<open>positions\<close>.
\<close>

lemma find_bounds:
  "find data sub start = Some p \<Longrightarrow> start \<le> p \<and> p + length sub \<le> length data"
proof (induction data sub start rule: find.induct)
  case (1 data sub start)
  note [simp] = find.simps [of data sub start]
  show ?case
  proof (cases "start + length sub > length data")
    case True
    with "1.prems" show ?thesis by simp
  next
    case False
    note nf = this
    show ?thesis
    proof (cases "take (length sub) (drop start data) = sub")
      case True
      with nf "1.prems" show ?thesis by simp
    next
      case False
      with nf "1.prems" have "find data sub (Suc start) = Some p" by simp
      with "1.IH" [OF nf False] show ?thesis by simp
    qed
  qed
qed

function scan_from :: "bytes \<Rightarrow> nat \<Rightarrow> nat list" where
  "scan_from data pos =
    (case find data ZSTD_MAGIC pos of
       None \<Rightarrow> []
     | Some p \<Rightarrow> p # scan_from data (p + length ZSTD_MAGIC))"
  by pat_completeness auto
termination
proof (relation "measure (\<lambda>(data, pos). Suc (length data) - pos)")
  show "wf (measure (\<lambda>(data, pos). Suc (length data) - pos))" by simp
next
  fix data :: bytes and pos p :: nat
  assume "find data ZSTD_MAGIC pos = Some p"
  from find_bounds [OF this]
  have "pos \<le> p" and "p + 4 \<le> length data"
    by (simp_all add: ZSTD_MAGIC_def)
  then have "Suc (length data) - (p + 4) < Suc (length data) - pos"
    by arith
  then show "((data, p + length ZSTD_MAGIC), (data, pos))
          \<in> measure (\<lambda>(data, pos). Suc (length data) - pos)"
    by (simp add: ZSTD_MAGIC_def)
qed

declare scan_from.simps [simp del]

definition scan_zstd_frames :: "bytes \<Rightarrow> nat list" where
  "scan_zstd_frames data = scan_from data 0"

section \<open>The classifier as an ordered first-match chain\<close>

text \<open>
  The specification's reading of the classifier: an ordered list of (check, label) pairs,
  evaluated front to back, the first check that holds deciding the label, and the empty
  label when none holds.
\<close>

definition has_prefix :: "nat \<Rightarrow> bytes \<Rightarrow> bytes \<Rightarrow> bool" where
  "has_prefix n m data = (length data \<ge> n \<and> take n data = m)"

definition has_riff_wave :: "bytes \<Rightarrow> bool" where
  "has_riff_wave data =
     (length data \<ge> 12 \<and> take 4 data = ''RIFF'' \<and> take 4 (drop 8 data) = ''WAVE'')"

definition has_suffix :: "nat \<Rightarrow> bytes \<Rightarrow> bytes \<Rightarrow> bool" where
  "has_suffix n m data = (length data \<ge> n \<and> drop (length data - n) data = m)"

definition priority_chain :: "((bytes \<Rightarrow> bool) \<times> string) list" where
  "priority_chain =
    [(has_prefix 4 MESH_MAGIC, ''.mesh''),
     (has_prefix 4 PNG_MAGIC, ''.png''),
     (has_prefix 8 KTX_MAGIC, ''.ktx''),
     (has_prefix 3 ''DDS'', ''.dds''),
     (has_riff_wave, ''.wem''),
     (has_prefix 4 ''BKHD'', ''.bnk''),
     (has_prefix 4 ''AKPK'', ''.npk''),
     (has_prefix 4 ZSTD_MAGIC, ''.zst''),
     (has_suffix 18 TGA_TAIL_MAGIC, ''.tga'')]"

fun first_match :: "((bytes \<Rightarrow> bool) \<times> string) list \<Rightarrow> bytes \<Rightarrow> string" where
  "first_match [] data = ''''"
| "first_match ((p, l) # cs) data = (if p data then l else first_match cs data)"

lemma length_TGA_TAIL_MAGIC: "length TGA_TAIL_MAGIC = 18"
  by (simp add: TGA_TAIL_MAGIC_def)

lemma length_ZSTD_MAGIC: "length ZSTD_MAGIC = 4"
  by (simp add: ZSTD_MAGIC_def)

text \<open>
  Claim C3.  For every byte string the classifier returns the label of the first check that
  holds in the order mesh (4-byte prefix), PNG (4), KTX (8), DDS (3), RIFF/WAVE (12), BKHD (4),
  AKPK (4), zstd magic (4), TGA trailer (last 18 bytes), and the empty label when none holds.
  An input matching an earlier and a later check gets the earlier label: a buffer that starts
  with the mesh magic and ends with the TGA trailer is a mesh.
\<close>

theorem detect_file_extension_first_match:
  "detect_file_extension data = first_match priority_chain data
   \<and> detect_file_extension (MESH_MAGIC @ TGA_TAIL_MAGIC) = ''.mesh''"
proof
  show "detect_file_extension data = first_match priority_chain data"
  proof (cases "data = []")
    case True
    then show ?thesis
      by (simp add: detect_file_extension_def priority_chain_def has_prefix_def
          has_riff_wave_def has_suffix_def)
  next
    case False
    then show ?thesis
      unfolding detect_file_extension_def priority_chain_def has_prefix_def has_riff_wave_def
        has_suffix_def length_TGA_TAIL_MAGIC ZSTD_MAGIC_def first_match.simps
      by (simp only: if_False)
  qed
next
  show "detect_file_extension (MESH_MAGIC @ TGA_TAIL_MAGIC) = ''.mesh''"
    by (simp add: detect_file_extension_def MESH_MAGIC_def TGA_TAIL_MAGIC_def)
qed

section \<open>What the scanner finds\<close>

text \<open>The signature occurs at offset \<open>i\<close> of the buffer.\<close>

definition occurs_at :: "bytes \<Rightarrow> nat \<Rightarrow> bool" where
  "occurs_at data i = (i + 4 \<le> length data \<and> take 4 (drop i data) = ZSTD_MAGIC)"

lemma find_None:
  "find data sub start = None \<Longrightarrow> start \<le> i \<Longrightarrow> i + length sub \<le> length data
     \<Longrightarrow> take (length sub) (drop i data) \<noteq> sub"
proof (induction data sub start rule: find.induct)
  case (1 data sub start)
  note [simp] = find.simps [of data sub start]
  from "1.prems" have nf: "\<not> start + length sub > length data" by simp
  show ?case
  proof (cases "take (length sub) (drop start data) = sub")
    case True
    with nf "1.prems" show ?thesis by simp
  next
    case False
    with nf "1.prems" have n: "find data sub (Suc start) = None" by simp
    show ?thesis
    proof (cases "i = start")
      case True
      with False show ?thesis by simp
    next
      case False
      with "1.prems" have "Suc start \<le> i" by simp
      from "1.IH" [OF nf \<open>take (length sub) (drop start data) \<noteq> sub\<close> n this "1.prems"(3)]
      show ?thesis .
    qed
  qed
qed

lemma find_Some:
  "find data sub start = Some p \<Longrightarrow>
     take (length sub) (drop p data) = sub \<and>
     (\<forall>i. start \<le> i \<and> i < p \<longrightarrow> take (length sub) (drop i data) \<noteq> sub)"
proof (induction data sub start rule: find.induct)
  case (1 data sub start)
  note [simp] = find.simps [of data sub start]
  from "1.prems" have nf: "\<not> start + length sub > length data"
    by (simp split: if_splits)
  show ?case
  proof (cases "take (length sub) (drop start data) = sub")
    case True
    with nf "1.prems" have "p = start" by simp
    with True show ?thesis by auto
  next
    case False
    with nf "1.prems" have n: "find data sub (Suc start) = Some p" by simp
    from "1.IH" [OF nf False n] False show ?thesis
      by (metis Suc_leI le_neq_implies_less)
  qed
qed

lemma occurs_nth:
  assumes "occurs_at data i"
  shows "data ! i = CHR 0x28 \<and> data ! (i + 1) = CHR 0xB5 \<and> data ! (i + 2) = CHR 0x2F
       \<and> data ! (i + 3) = CHR 0xFD"
proof -
  from assms have l: "i + 4 \<le> length data" and t: "take 4 (drop i data) = ZSTD_MAGIC"
    by (simp_all add: occurs_at_def)
  have "\<And>k. k < 4 \<Longrightarrow> data ! (i + k) = ZSTD_MAGIC ! k"
  proof -
    fix k :: nat assume k: "k < 4"
    have "ZSTD_MAGIC ! k = take 4 (drop i data) ! k" using t by simp
    also have "\<dots> = drop i data ! k" using k by simp
    also have "\<dots> = data ! (i + k)" using l k by simp
    finally show "data ! (i + k) = ZSTD_MAGIC ! k" by simp
  qed
  from this [of 0] this [of 1] this [of 2] this [of 3]
  show ?thesis by (simp add: ZSTD_MAGIC_def)
qed

text \<open>The signature cannot overlap a shifted copy of itself.\<close>

lemma no_self_overlap:
  assumes "occurs_at data p" and "p < i" and "i < p + 4"
  shows "\<not> occurs_at data i"
proof
  assume "occurs_at data i"
  from occurs_nth [OF this] occurs_nth [OF assms(1)]
  have a: "data ! i = CHR 0x28" and b: "data ! (p + 1) = CHR 0xB5"
    and c: "data ! (p + 2) = CHR 0x2F" and d: "data ! (p + 3) = CHR 0xFD"
    by simp_all
  from assms have "i = p + 1 \<or> i = p + 2 \<or> i = p + 3" by arith
  with a b c d show False by auto
qed

lemma scan_from_filter:
  "scan_from data pos = filter (occurs_at data) [pos..<length data]"
proof (induction data pos rule: scan_from.induct)
  case (1 data pos)
  note [simp] = scan_from.simps [of data pos]
  show ?case
  proof (cases "find data ZSTD_MAGIC pos")
    case None
    have "\<And>i. i \<in> set [pos..<length data] \<Longrightarrow> \<not> occurs_at data i"
      using find_None [OF None] by (auto simp: occurs_at_def length_ZSTD_MAGIC)
    then have "filter (occurs_at data) [pos..<length data] = []"
      by (simp add: filter_empty_conv)
    with None show ?thesis by simp
  next
    case (Some p)
    from find_bounds [OF Some] have b: "pos \<le> p" "p + 4 \<le> length data"
      by (simp_all add: length_ZSTD_MAGIC)
    from find_Some [OF Some] have occ: "occurs_at data p"
      and before: "\<And>i. pos \<le> i \<Longrightarrow> i < p \<Longrightarrow> \<not> occurs_at data i"
      using b by (auto simp: occurs_at_def length_ZSTD_MAGIC)
    have split: "[pos..<length data] = [pos..<p] @ [p] @ [Suc p..<p + 4] @ [p + 4..<length data]"
    proof -
      have "[pos..<length data] = [pos..<p] @ [p..<length data]"
        using b by (metis le_add1 le_trans upt_add_eq_append le_Suc_ex)
      also have "[p..<length data] = p # [Suc p..<length data]"
        using b by (simp add: upt_conv_Cons)
      also have "[Suc p..<length data] = [Suc p..<p + 4] @ [p + 4..<length data]"
        using b by (metis Suc_leI le_Suc_ex upt_add_eq_append
            less_add_same_cancel1 zero_less_numeral Suc_le_eq)
      finally show ?thesis by simp
    qed
    have f1: "filter (occurs_at data) [pos..<p] = []"
      using before by (simp add: filter_empty_conv)
    have f2: "filter (occurs_at data) [Suc p..<p + 4] = []"
      using no_self_overlap [OF occ] by (simp add: filter_empty_conv)
    have "scan_from data pos = p # scan_from data (p + 4)"
      using Some by (simp add: length_ZSTD_MAGIC)
    also have "scan_from data (p + 4) = filter (occurs_at data) [p + 4..<length data]"
      using "1.IH" [OF Some] by (simp add: length_ZSTD_MAGIC)
    finally show ?thesis
      by (simp only: split filter_append f1 f2 occ filter.simps if_True append_Nil append_Cons)
  qed
qed

text \<open>
  Claim C4.  For every buffer the scanner returns exactly the offsets at which the 4-byte
  signature occurs, each once and in ascending order: no occurrence is skipped (the signature
  cannot overlap itself, so resuming 4 bytes after a match loses nothing), and successive
  offsets are at least 4 apart, so the matches do not overlap and the order is strictly
  ascending.  The index of a frame is its position in this list.
\<close>

theorem scan_zstd_frames_all_occurrences:
  "scan_zstd_frames data = filter (occurs_at data) [0..<length data]
   \<and> sorted_wrt (\<lambda>a b. a + 4 \<le> b) (scan_zstd_frames data)"
proof
  show eq: "scan_zstd_frames data = filter (occurs_at data) [0..<length data]"
    by (simp only: scan_zstd_frames_def scan_from_filter)
  have asc: "sorted_wrt (<) (filter (occurs_at data) [0..<length data])"
    by (simp add: sorted_wrt_filter)
  have gap: "a + 4 \<le> b"
    if "a \<in> set (filter (occurs_at data) [0..<length data])"
      and "b \<in> set (filter (occurs_at data) [0..<length data])" and "a < b" for a b
  proof (rule ccontr)
    assume "\<not> a + 4 \<le> b"
    with that have "occurs_at data a" "a < b" "b < a + 4" "occurs_at data b" by simp_all
    then show False using no_self_overlap [of data a b] by simp
  qed
  from asc have "sorted_wrt (\<lambda>a b. a + 4 \<le> b) (filter (occurs_at data) [0..<length data])"
    by (rule sorted_wrt_mono_rel [rotated]) (rule gap)
  then show "sorted_wrt (\<lambda>a b. a + 4 \<le> b) (scan_zstd_frames data)"
    by (simp only: eq)
qed


section \<open>The environment of an extraction task\<close>

text \<open>
  The decompressor (\<open>zstandard\<close>) and the hash (\<open>hashlib.md5\<close>) are library code, and whether
  a directory can be made or a file written is decided by the file system: all four are
  parameters of the model.  \<open>decompress\<close> returns \<open>None\<close> where
  \<open>ZstdDecompressor().decompress\<close> raises; \<open>md5\<close> is the 128-bit digest (the source keeps
  its hexadecimal form, which names the same 128 bits); \<open>mkdir_ok\<close> and \<open>write_ok\<close> are
  false where \<open>mkdir\<close> or \<open>open\<close>/\<open>write\<close> raise.
\<close>

type_synonym fingerprint = "128 word"

text \<open>
  The values of \<open>FILE_CATEGORY_MAP\<close> are the names of the output folders (audio,
  image, model, package, compressed, unknown; the three files spell them differently).
\<close>

datatype category = Audio | Image | Model | Package | Compressed | Unknown

text \<open>
  An output path is kept as the parts the source formats it from:
  \<open>output_root/category/extracted_frame_{frame_idx + 1}{ext}\<close> in the two NPK tools and
  \<open>output_root/category/{file_name}_block{block_idx}{file_ext}\<close> in the PPK tool.
\<close>

datatype out_path =
    Frame_file category nat string
  | Block_file category string nat string

record env =
  decompress :: "bytes \<Rightarrow> bytes option"
  md5 :: "bytes \<Rightarrow> fingerprint"
  mkdir_ok :: "category \<Rightarrow> bool"
  write_ok :: "out_path \<Rightarrow> bool"

definition FILE_CATEGORY_MAP :: "string \<rightharpoonup> category" where
  "FILE_CATEGORY_MAP =
     [''.wem'' \<mapsto> Audio, ''.bnk'' \<mapsto> Audio, ''.png'' \<mapsto> Image, ''.dds'' \<mapsto> Image,
      ''.ktx'' \<mapsto> Image, ''.tga'' \<mapsto> Image, ''.mesh'' \<mapsto> Model, ''.npk'' \<mapsto> Package,
      ''.zst'' \<mapsto> Compressed, '''' \<mapsto> Unknown]"

text \<open>\<open>FILE_CATEGORY_MAP.get(ext, unknown)\<close>.\<close>

definition category_of :: "string \<Rightarrow> category" where
  "category_of ext = (case FILE_CATEGORY_MAP ext of Some c \<Rightarrow> c | None \<Rightarrow> Unknown)"

text \<open>
  What one task reports.  Every message of the source is a constructor; the arguments are
  the frame index and the frame offset that the message (or the progress line before it)
  prints.  In source order, for \<open>extract_single_frame\<close> of \<open>NpkUnlock_GUI.py\<close>:
  line 136 (interrupted, decompression of this frame not started), line 142 (interrupted,
  decompression skipped), line 147 (interrupted, decompressed but not written), line 152
  (duplicate frame skipped), line 169 (interrupted, file not written), line 177 (extracted),
  line 192 (decompression failed), line 195 (exception while processing).
\<close>

datatype status_msg =
    Interrupted_not_started
  | Interrupted_skip_decompress nat nat
  | Interrupted_decompressed_not_written nat nat
  | Skipped_duplicate nat nat fingerprint
  | Interrupted_not_written nat nat
  | Extracted nat nat out_path nat fingerprint
  | Decompress_failed nat nat
  | Processing_exception nat nat

text \<open>
  What a task does to the world outside it, in the order in which it does it.  The source
  keeps no such record; the model writes one so that theorems can say where in a task each
  action sits.  An action of a task carries the index of its frame.  In source order, for
  \<open>extract_single_frame\<close> of \<open>NpkUnlock_GUI.py\<close>: a read of the stop flag and the value
  read (lines 135, 141, 146, 168; line 378 and the other reads of \<open>run\<close> belong to the main
  loop), the call of the decompressor on \<open>data[frame_start:]\<close> (line 144), the membership
  test on the set of fingerprints (line 151), the call of the classifier (line 158), the
  \<open>mkdir\<close> of the category folder (line 164), the file written (lines 171-172), and the
  fingerprint added to the set (line 174).
\<close>

datatype reader = Main_loop | Task nat

datatype event =
    Flag_read reader bool
  | Decompress_called nat nat
  | Membership_tested nat fingerprint
  | Classified nat
  | Mkdir_called nat category
  | File_written nat out_path
  | Fingerprint_added nat fingerprint

text \<open>
  The state the tasks of one process share: the set of fingerprints, the files written (in
  the order of the writes, so a later write of a path replaces an earlier one), the number
  of times the stop flag has been read so far, and the record of actions.
\<close>

record store =
  extracted_hashes :: "fingerprint set"
  written :: "(out_path \<times> bytes) list"
  polls :: nat
  events :: "event list"

definition logged :: "event list \<Rightarrow> store \<Rightarrow> store" where
  "logged evs st = st\<lparr>events := events st @ evs\<rparr>"

section \<open>\<open>NpkUnlocker.py\<close>: the command-line tool\<close>

text \<open>
  \<open>extract_single_frame\<close> (lines 77-110).  The result is the returned flag and the
  message printed; both \<open>except\<close> clauses return \<open>False\<close>.
\<close>

definition cli_extract_single_frame ::
  "env \<Rightarrow> bytes \<Rightarrow> nat \<Rightarrow> nat \<Rightarrow> store \<Rightarrow> (bool \<times> status_msg) \<times> store" where
  "cli_extract_single_frame e data frame_start frame_idx st =
    (let st1 = logged [Decompress_called frame_idx frame_start] st in
     case decompress e (drop frame_start data) of
       None \<Rightarrow> ((False, Decompress_failed frame_idx frame_start), st1)
     | Some decompressed \<Rightarrow>
         let file_hash = md5 e decompressed;
             st2 = logged [Membership_tested frame_idx file_hash] st1
         in
         if file_hash \<in> extracted_hashes st2
         then ((False, Skipped_duplicate frame_idx frame_start file_hash), st2)
         else
           let ext = detect_file_extension decompressed;
               category = category_of ext;
               output_path = Frame_file category (frame_idx + 1) ext;
               st3 = logged [Classified frame_idx, Mkdir_called frame_idx category] st2
           in
             if \<not> mkdir_ok e category
             then ((False, Processing_exception frame_idx frame_start), st3)
             else if \<not> write_ok e output_path
             then ((False, Processing_exception frame_idx frame_start), st3)
             else ((True, Extracted frame_idx frame_start output_path
                            (length decompressed) file_hash),
                   logged [File_written frame_idx output_path,
                           Fingerprint_added frame_idx file_hash]
                     (st3\<lparr>written := written st3 @ [(output_path, decompressed)],
                          extracted_hashes := insert file_hash (extracted_hashes st3)\<rparr>)))"

text \<open>
  The serial branch of \<open>extract_zstd_container\<close> (lines 170-174): the loop over
  \<open>enumerate(frame_positions)\<close>, with the count of extracted frames and the messages
  printed so far.
\<close>

fun cli_serial_loop ::
  "env \<Rightarrow> bytes \<Rightarrow> (nat \<times> nat) list \<Rightarrow> nat \<Rightarrow> status_msg list \<Rightarrow> store
     \<Rightarrow> nat \<times> status_msg list \<times> store" where
  "cli_serial_loop e data [] extracted_count log st = (extracted_count, log, st)"
| "cli_serial_loop e data ((i, frame_start) # rest) extracted_count log st =
    (case cli_extract_single_frame e data frame_start i st of
       ((result, msg), st') \<Rightarrow>
         cli_serial_loop e data rest
           (if result then extracted_count + 1 else extracted_count) (log @ [msg]) st')"

text \<open>
  \<open>extract_zstd_container\<close> with \<open>FAST_MODE = False\<close>: scan, start from an empty set of
  fingerprints (line 148), run the loop, return the count (line 179).  The store passed in
  is what earlier runs of the process left; only its files survive.
\<close>

definition cli_extract_zstd_container_serial ::
  "env \<Rightarrow> bytes \<Rightarrow> store \<Rightarrow> nat \<times> status_msg list \<times> store" where
  "cli_extract_zstd_container_serial e data st =
    (let frame_positions = scan_zstd_frames data
     in cli_serial_loop e data (enumerate 0 frame_positions) 0 []
          (st\<lparr>extracted_hashes := {}\<rparr>))"

section \<open>\<open>NpkUnlock_GUI.py\<close>: the extraction worker\<close>

text \<open>
  \<open>stop_flag()\<close> reads the worker's \<open>_stop\<close> field, which the window's thread sets at a
  time of its choosing.  \<open>stop k\<close> is the value the \<open>k\<close>-th read of the run sees; \<open>who\<close>
  is the reader, for the record of actions.
\<close>

definition stop_flag :: "reader \<Rightarrow> (nat \<Rightarrow> bool) \<Rightarrow> store \<Rightarrow> bool \<times> store" where
  "stop_flag who stop st =
     (stop (polls st),
      st\<lparr>polls := Suc (polls st), events := events st @ [Flag_read who (stop (polls st))]\<rparr>)"

type_synonym info = "out_path \<times> nat"

text \<open>
  \<open>extract_single_frame\<close> (lines 126-196).  The returned triple is \<open>(ok, msg, info)\<close>;
  \<open>info\<close> holds the path and the size of the file written.
\<close>

definition gui_extract_single_frame ::
  "env \<Rightarrow> (nat \<Rightarrow> bool) \<Rightarrow> bytes \<Rightarrow> nat \<Rightarrow> nat \<Rightarrow> bool \<Rightarrow> bool \<Rightarrow> store
     \<Rightarrow> (bool \<times> status_msg \<times> info option) \<times> store" where
  "gui_extract_single_frame e stop data frame_start frame_idx enable_md5 enable_type_detect st =
    (case stop_flag (Task frame_idx) stop st of (s1, st1) \<Rightarrow>
     if s1 then ((False, Interrupted_not_started, None), st1)
     else case stop_flag (Task frame_idx) stop st1 of (s2, st2) \<Rightarrow>
     if s2 then ((False, Interrupted_skip_decompress frame_idx frame_start, None), st2)
     else
     let st2d = logged [Decompress_called frame_idx frame_start] st2 in
     case decompress e (drop frame_start data) of
       None \<Rightarrow> ((False, Decompress_failed frame_idx frame_start, None), st2d)
     | Some decompressed \<Rightarrow>
     case stop_flag (Task frame_idx) stop st2d of (s3, st3) \<Rightarrow>
     if s3 then ((False, Interrupted_decompressed_not_written frame_idx frame_start, None), st3)
     else
       let file_hash = md5 e decompressed;
           st3t = (if enable_md5 then logged [Membership_tested frame_idx file_hash] st3
                   else st3)
       in
       if enable_md5 \<and> file_hash \<in> extracted_hashes st3t
       then ((False, Skipped_duplicate frame_idx frame_start file_hash, None), st3t)
       else
         let ext = (if enable_type_detect then detect_file_extension decompressed else '''');
             category = category_of ext;
             output_path = Frame_file category (frame_idx + 1) ext;
             st3m = logged ((if enable_type_detect then [Classified frame_idx] else [])
                            @ [Mkdir_called frame_idx category]) st3t
         in
           if \<not> mkdir_ok e category
           then ((False, Processing_exception frame_idx frame_start, None), st3m)
           else case stop_flag (Task frame_idx) stop st3m of (s4, st4) \<Rightarrow>
             if s4 then ((False, Interrupted_not_written frame_idx frame_start, None), st4)
             else if \<not> write_ok e output_path
             then ((False, Processing_exception frame_idx frame_start, None), st4)
             else ((True,
                    Extracted frame_idx frame_start output_path (length decompressed) file_hash,
                    Some (output_path, length decompressed)),
                   logged ([File_written frame_idx output_path]
                           @ (if enable_md5 then [Fingerprint_added frame_idx file_hash]
                              else []))
                     (st4\<lparr>written := written st4 @ [(output_path, decompressed)],
                          extracted_hashes :=
                            (if enable_md5 then insert file_hash (extracted_hashes st4)
                             else extracted_hashes st4)\<rparr>)))"

text \<open>
  The serial branch of \<open>ExtractWorker.run\<close> (lines 377-389): the flag is read before each
  frame, and a set flag leaves the loop.
\<close>

fun gui_serial_loop ::
  "env \<Rightarrow> (nat \<Rightarrow> bool) \<Rightarrow> bytes \<Rightarrow> bool \<Rightarrow> bool \<Rightarrow> (nat \<times> nat) list \<Rightarrow> nat
     \<Rightarrow> status_msg list \<Rightarrow> store \<Rightarrow> nat \<times> status_msg list \<times> store" where
  "gui_serial_loop e stop data enable_md5 enable_type_detect [] extracted_count log st =
     (extracted_count, log, st)"
| "gui_serial_loop e stop data enable_md5 enable_type_detect ((i, frame_start) # rest)
       extracted_count log st =
    (case stop_flag Main_loop stop st of (s, st1) \<Rightarrow>
     if s then (extracted_count, log, st1)
     else
       case gui_extract_single_frame e stop data frame_start i enable_md5 enable_type_detect st1
       of ((ok, msg, info), st2) \<Rightarrow>
         gui_serial_loop e stop data enable_md5 enable_type_detect rest
           (if ok \<and> info \<noteq> None then extracted_count + 1 else extracted_count)
           (log @ [msg]) st2)"

text \<open>
  How a run of the worker ends: \<open>error_signal\<close> (the input file is missing, or an exception
  left the body of \<open>run\<close>), or \<open>finished_signal\<close> with the number of files extracted.
\<close>

datatype outcome = Run_error | Run_finished nat

record run_result =
  outcome :: outcome
  total_frames :: nat
  log :: "status_msg list"
  final :: store

text \<open>
  \<open>ExtractWorker.run\<close> with \<open>fast_mode = False\<close> (lines 297-403).  \<open>input\<close> is the content
  of the input file, \<open>None\<close> when it does not exist or cannot be read or the output root
  cannot be made.  The set of fingerprints is made afresh (line 338).
\<close>

definition gui_run_serial ::
  "env \<Rightarrow> (nat \<Rightarrow> bool) \<Rightarrow> bool \<Rightarrow> bool \<Rightarrow> bytes option \<Rightarrow> store \<Rightarrow> run_result" where
  "gui_run_serial e stop enable_md5 enable_type_detect input st =
    (case input of
       None \<Rightarrow> \<lparr>outcome = Run_error, total_frames = 0, log = [], final = st\<rparr>
     | Some data \<Rightarrow>
         let frame_positions = scan_zstd_frames data;
             total = length frame_positions
         in case stop_flag Main_loop stop st of (s, st1) \<Rightarrow>
           if s then \<lparr>outcome = Run_finished 0, total_frames = total, log = [], final = st1\<rparr>
           else if total = 0
           then \<lparr>outcome = Run_finished 0, total_frames = total, log = [], final = st1\<rparr>
           else
             case gui_serial_loop e stop data enable_md5 enable_type_detect
                    (enumerate 0 frame_positions) 0 [] (st1\<lparr>extracted_hashes := {}\<rparr>)
             of (extracted_count, msgs, st2) \<Rightarrow>
               case stop_flag Main_loop stop st2 of (s', st3) \<Rightarrow>
                 \<lparr>outcome = Run_finished extracted_count, total_frames = total,
                  log = msgs, final = st3\<rparr>)"


section \<open>\<open>PPKUnlocker.py\<close>: blocks bounded by the next signature\<close>

definition MAX_BLOCK_SIZE :: nat where
  "MAX_BLOCK_SIZE = 20 * 1024 * 1024"

text \<open>
  What \<open>process_ppk_file\<close> does is not logged by the source; the model records it, in
  order, so that theorems can speak about it: the slice taken at line 118, the early
  \<open>continue\<close> of line 122, the membership test of line 128 finding the fingerprint,
  the \<open>add\<close> of line 131, the call of the decompressor at line 136 and its failure
  (line 137), and the file saved at line 155.
\<close>

datatype ppk_event =
    Block_found nat nat
  | Too_small
  | Md5_seen fingerprint
  | Md5_added fingerprint
  | Block_decompress_called bytes
  | Block_decompress_raised
  | Saved out_path

text \<open>
  The module-level set \<open>DUPLICATE_MD5\<close> (line 85), the files saved, and the record of
  events.
\<close>

record ppk_store =
  DUPLICATE_MD5 :: "fingerprint set"
  saved :: "(out_path \<times> bytes) list"
  trace :: "ppk_event list"

definition emit :: "ppk_event list \<Rightarrow> ppk_store \<Rightarrow> ppk_store" where
  "emit evs st = st\<lparr>trace := trace st @ evs\<rparr>"

text \<open>
  Lines 111-115: the end of the block that starts at \<open>magic_pos\<close>.
\<close>

definition block_end_of :: "bytes \<Rightarrow> nat \<Rightarrow> nat" where
  "block_end_of file_data magic_pos =
     (let next_magic_pos = find file_data ZSTD_MAGIC (magic_pos + 4)
      in min (case next_magic_pos of Some n \<Rightarrow> n | None \<Rightarrow> length file_data)
             (magic_pos + MAX_BLOCK_SIZE))"

text \<open>
  Lines 121-157, the rest of the loop body once \<open>zstd_data\<close> is cut out: the block is
  skipped (one of the three \<open>continue\<close>s), or extracted, or an exception of \<open>mkdir\<close>,
  \<open>open\<close> or \<open>write\<close> leaves the loop for the handler of line 168.
\<close>

datatype block_outcome = Block_skipped | Block_extracted | Block_raised

definition process_block ::
  "env \<Rightarrow> string \<Rightarrow> nat \<Rightarrow> bytes \<Rightarrow> ppk_store \<Rightarrow> block_outcome \<times> ppk_store" where
  "process_block e file_name block_idx zstd_data st =
    (if length zstd_data < 1024 then (Block_skipped, emit [Too_small] st)
     else
       let block_md5 = md5 e zstd_data in
       if block_md5 \<in> DUPLICATE_MD5 st
       then (Block_skipped, emit [Md5_seen block_md5] st)
       else
         let st1 = emit [Md5_added block_md5]
                     (st\<lparr>DUPLICATE_MD5 := insert block_md5 (DUPLICATE_MD5 st)\<rparr>);
             st2 = emit [Block_decompress_called zstd_data] st1
         in case decompress e zstd_data of
              None \<Rightarrow> (Block_skipped, emit [Block_decompress_raised] st2)
            | Some decompressed \<Rightarrow>
                let file_ext = detect_file_extension decompressed;
                    category = category_of file_ext;
                    save_path = Block_file category file_name block_idx file_ext
                in if \<not> mkdir_ok e category then (Block_raised, st2)
                   else if \<not> write_ok e save_path then (Block_raised, st2)
                   else (Block_extracted,
                         emit [Saved save_path]
                           (st2\<lparr>saved := saved st2 @ [(save_path, decompressed)]\<rparr>)))"

text \<open>
  The result dictionary of \<open>process_ppk_file\<close>: \<open>status = success\<close> with the numbers of
  blocks processed and extracted, or \<open>status = failed\<close>.
\<close>

datatype ppk_result = Ppk_success nat nat | Ppk_failed

lemma block_end_of_bounds:
  assumes "find file_data ZSTD_MAGIC offset = Some magic_pos"
  shows "magic_pos + 4 \<le> block_end_of file_data magic_pos
         \<and> block_end_of file_data magic_pos \<le> length file_data \<and> offset \<le> magic_pos"
proof -
  from find_bounds [OF assms] have b: "offset \<le> magic_pos" "magic_pos + 4 \<le> length file_data"
    by (simp_all add: length_ZSTD_MAGIC)
  show ?thesis
  proof (cases "find file_data ZSTD_MAGIC (magic_pos + 4)")
    case None
    with b show ?thesis by (simp add: block_end_of_def MAX_BLOCK_SIZE_def)
  next
    case (Some n)
    from find_bounds [OF Some] have "magic_pos + 4 \<le> n" "n + 4 \<le> length file_data"
      by (simp_all add: length_ZSTD_MAGIC)
    with b Some show ?thesis by (simp add: block_end_of_def MAX_BLOCK_SIZE_def)
  qed
qed

text \<open>
  The \<open>while\<close> loop of \<open>process_ppk_file\<close> (lines 104-159), entered with the variables
  \<open>offset\<close>, \<open>block_idx\<close>, \<open>processed_blocks\<close> and \<open>extracted_blocks\<close>.
\<close>

function ppk_loop ::
  "env \<Rightarrow> string \<Rightarrow> bytes \<Rightarrow> nat \<Rightarrow> nat \<Rightarrow> nat \<Rightarrow> nat \<Rightarrow> ppk_store
     \<Rightarrow> ppk_result \<times> ppk_store" where
  "ppk_loop e file_name file_data offset block_idx processed_blocks extracted_blocks st =
    (if offset < length file_data then
       case find file_data ZSTD_MAGIC offset of
         None \<Rightarrow> (Ppk_success processed_blocks extracted_blocks, st)
       | Some magic_pos \<Rightarrow>
           let block_end = block_end_of file_data magic_pos;
               zstd_data = take (block_end - magic_pos) (drop magic_pos file_data)
           in case process_block e file_name block_idx zstd_data
                     (emit [Block_found magic_pos block_end] st) of
                (Block_skipped, st') \<Rightarrow>
                  ppk_loop e file_name file_data block_end block_idx
                    (processed_blocks + 1) extracted_blocks st'
              | (Block_extracted, st') \<Rightarrow>
                  ppk_loop e file_name file_data block_end (block_idx + 1)
                    (processed_blocks + 1) (extracted_blocks + 1) st'
              | (Block_raised, st') \<Rightarrow> (Ppk_failed, st')
     else (Ppk_success processed_blocks extracted_blocks, st))"
  by pat_completeness auto
termination
proof (relation "measure (\<lambda>(e, file_name, file_data, offset, rest). length file_data - offset)",
    goal_cases)
  case 1
  show ?case by simp
next
  case (2 e file_name file_data offset block_idx processed_blocks extracted_blocks st magic_pos
      block_end)
  from block_end_of_bounds [OF 2(2)] 2(3)
  have "offset < block_end" and "block_end \<le> length file_data" by simp_all
  then show ?case by simp
next
  case (3 e file_name file_data offset block_idx processed_blocks extracted_blocks st magic_pos
      block_end)
  from block_end_of_bounds [OF 3(2)] 3(3)
  have "offset < block_end" and "block_end \<le> length file_data" by simp_all
  then show ?case by simp
qed

declare ppk_loop.simps [simp del]

text \<open>
  \<open>process_ppk_file\<close> (lines 88-173).  \<open>input\<close> is the content of the file, \<open>None\<close> when
  reading it raises.
\<close>

definition process_ppk_file ::
  "env \<Rightarrow> string \<Rightarrow> bytes option \<Rightarrow> ppk_store \<Rightarrow> ppk_result \<times> ppk_store" where
  "process_ppk_file e file_name input st =
    (case input of
       None \<Rightarrow> (Ppk_failed, st)
     | Some file_data \<Rightarrow> ppk_loop e file_name file_data 0 0 0 0 st)"


section \<open>Tasks run by a thread pool\<close>

text \<open>
  With \<open>fast_mode\<close> (\<open>FAST_MODE\<close> in the command-line tool) the calls of
  \<open>extract_single_frame\<close> are submitted to a \<open>ThreadPoolExecutor\<close> and run concurrently on
  the same set of fingerprints, with no lock.  A task is then a sequence of steps, each of
  which touches the shared state at most once, and a run is an interleaving of the steps of
  its tasks.  Computation on local values (decompressing, hashing, classifying) is joined to
  the next access of the shared state.

  The steps of \<open>extract_single_frame\<close> of \<open>NpkUnlock_GUI.py\<close>: a phase names the access
  the task makes next and carries the decompressed payload once there is one.
\<close>

datatype phase =
    At_entry
  | Before_decompress
  | Decompressing
  | Checking bytes
  | Before_write bytes
  | Writing bytes
  | Marking bytes
  | Returned "bool \<times> status_msg \<times> info option"

text \<open>
  One step of a task on the frame \<open>(frame_idx, frame_start)\<close>: the read of the flag at line
  135; the read at line 141; the decompression and the read at line 146; the membership test
  of line 151 and the \<open>mkdir\<close> of line 164; the read at line 168; the write of lines 171-172;
  the \<open>add\<close> of line 174 and the return.
\<close>

definition gui_task_step ::
  "env \<Rightarrow> (nat \<Rightarrow> bool) \<Rightarrow> bytes \<Rightarrow> bool \<Rightarrow> bool \<Rightarrow> nat \<times> nat \<Rightarrow> phase \<Rightarrow> store
     \<Rightarrow> phase \<times> store" where
  "gui_task_step e stop data enable_md5 enable_type_detect task ph st =
    (case task of (frame_idx, frame_start) \<Rightarrow>
     case ph of
       At_entry \<Rightarrow>
         (case stop_flag (Task frame_idx) stop st of (s, st1) \<Rightarrow>
            if s then (Returned (False, Interrupted_not_started, None), st1)
            else (Before_decompress, st1))
     | Before_decompress \<Rightarrow>
         (case stop_flag (Task frame_idx) stop st of (s, st1) \<Rightarrow>
            if s then (Returned (False, Interrupted_skip_decompress frame_idx frame_start, None),
                       st1)
            else (Decompressing, st1))
     | Decompressing \<Rightarrow>
         (let std = logged [Decompress_called frame_idx frame_start] st in
          case decompress e (drop frame_start data) of
            None \<Rightarrow> (Returned (False, Decompress_failed frame_idx frame_start, None), std)
          | Some decompressed \<Rightarrow>
              (case stop_flag (Task frame_idx) stop std of (s, st1) \<Rightarrow>
                 if s then (Returned (False,
                              Interrupted_decompressed_not_written frame_idx frame_start, None),
                            st1)
                 else (Checking decompressed, st1)))
     | Checking decompressed \<Rightarrow>
         (let file_hash = md5 e decompressed;
              stt = (if enable_md5 then logged [Membership_tested frame_idx file_hash] st
                     else st)
          in
          if enable_md5 \<and> file_hash \<in> extracted_hashes stt
          then (Returned (False, Skipped_duplicate frame_idx frame_start file_hash, None), stt)
          else
            let ext = (if enable_type_detect then detect_file_extension decompressed else '''');
                category = category_of ext;
                stm = logged ((if enable_type_detect then [Classified frame_idx] else [])
                              @ [Mkdir_called frame_idx category]) stt
            in if \<not> mkdir_ok e category
               then (Returned (False, Processing_exception frame_idx frame_start, None), stm)
               else (Before_write decompressed, stm))
     | Before_write decompressed \<Rightarrow>
         (case stop_flag (Task frame_idx) stop st of (s, st1) \<Rightarrow>
            if s then (Returned (False, Interrupted_not_written frame_idx frame_start, None),
                       st1)
            else (Writing decompressed, st1))
     | Writing decompressed \<Rightarrow>
         (let ext = (if enable_type_detect then detect_file_extension decompressed else '''');
              category = category_of ext;
              output_path = Frame_file category (frame_idx + 1) ext
          in if \<not> write_ok e output_path
             then (Returned (False, Processing_exception frame_idx frame_start, None), st)
             else (Marking decompressed,
                   logged [File_written frame_idx output_path]
                     (st\<lparr>written := written st @ [(output_path, decompressed)]\<rparr>)))
     | Marking decompressed \<Rightarrow>
         (let file_hash = md5 e decompressed;
              ext = (if enable_type_detect then detect_file_extension decompressed else '''');
              category = category_of ext;
              output_path = Frame_file category (frame_idx + 1) ext
          in (Returned (True,
                Extracted frame_idx frame_start output_path (length decompressed) file_hash,
                Some (output_path, length decompressed)),
              logged (if enable_md5 then [Fingerprint_added frame_idx file_hash] else [])
                (st\<lparr>extracted_hashes :=
                      (if enable_md5 then insert file_hash (extracted_hashes st)
                       else extracted_hashes st)\<rparr>)))
     | Returned r \<Rightarrow> (Returned r, st))"

text \<open>
  The steps of \<open>extract_single_frame\<close> of \<open>NpkUnlocker.py\<close>: decompression, hash and the
  membership test of line 85; classification, \<open>mkdir\<close> and the write of lines 90-99; the
  \<open>add\<close> of line 101 and the return.
\<close>

datatype cli_phase =
    Cli_entry
  | Cli_writing bytes
  | Cli_marking bytes
  | Cli_returned "bool \<times> status_msg"

definition cli_task_step ::
  "env \<Rightarrow> bytes \<Rightarrow> nat \<times> nat \<Rightarrow> cli_phase \<Rightarrow> store \<Rightarrow> cli_phase \<times> store" where
  "cli_task_step e data task ph st =
    (case task of (frame_idx, frame_start) \<Rightarrow>
     case ph of
       Cli_entry \<Rightarrow>
         (let st1 = logged [Decompress_called frame_idx frame_start] st in
          case decompress e (drop frame_start data) of
            None \<Rightarrow> (Cli_returned (False, Decompress_failed frame_idx frame_start), st1)
          | Some decompressed \<Rightarrow>
              let file_hash = md5 e decompressed;
                  st2 = logged [Membership_tested frame_idx file_hash] st1
              in
              if file_hash \<in> extracted_hashes st2
              then (Cli_returned (False, Skipped_duplicate frame_idx frame_start file_hash), st2)
              else (Cli_writing decompressed, st2))
     | Cli_writing decompressed \<Rightarrow>
         (let ext = detect_file_extension decompressed;
              category = category_of ext;
              output_path = Frame_file category (frame_idx + 1) ext;
              st3 = logged [Classified frame_idx, Mkdir_called frame_idx category] st
          in if \<not> mkdir_ok e category
             then (Cli_returned (False, Processing_exception frame_idx frame_start), st3)
             else if \<not> write_ok e output_path
             then (Cli_returned (False, Processing_exception frame_idx frame_start), st3)
             else (Cli_marking decompressed,
                   logged [File_written frame_idx output_path]
                     (st3\<lparr>written := written st3 @ [(output_path, decompressed)]\<rparr>)))
     | Cli_marking decompressed \<Rightarrow>
         (let file_hash = md5 e decompressed;
              ext = detect_file_extension decompressed;
              category = category_of ext;
              output_path = Frame_file category (frame_idx + 1) ext
          in (Cli_returned (True,
                Extracted frame_idx frame_start output_path (length decompressed) file_hash),
              logged [Fingerprint_added frame_idx file_hash]
                (st\<lparr>extracted_hashes := insert file_hash (extracted_hashes st)\<rparr>)))
     | Cli_returned r \<Rightarrow> (Cli_returned r, st))"

text \<open>
  The pool.  A configuration is the phase of every task and the shared state; a schedule
  names, step by step, the task that moves next.  (The bound \<open>max_workers\<close> only forbids
  schedules; the examples below never have more than two tasks under way.)
\<close>

definition par_step ::
  "(nat \<times> nat \<Rightarrow> 'p \<Rightarrow> store \<Rightarrow> 'p \<times> store) \<Rightarrow> (nat \<times> nat) list \<Rightarrow> 'p list \<times> store \<Rightarrow> nat
     \<Rightarrow> 'p list \<times> store" where
  "par_step step tasks cfg i =
    (case cfg of (phs, st) \<Rightarrow>
       if i < length tasks \<and> i < length phs
       then (case step (tasks ! i) (phs ! i) st of (ph', st') \<Rightarrow> (phs[i := ph'], st'))
       else (phs, st))"

definition par_exec ::
  "(nat \<times> nat \<Rightarrow> 'p \<Rightarrow> store \<Rightarrow> 'p \<times> store) \<Rightarrow> (nat \<times> nat) list \<Rightarrow> nat list
     \<Rightarrow> 'p list \<times> store \<Rightarrow> 'p list \<times> store" where
  "par_exec step tasks schedule cfg = foldl (par_step step tasks) cfg schedule"

text \<open>
  Leaving the \<open>with\<close> block waits for every task: after the schedule, each task that has not
  returned is run to its end, \<open>k\<close> steps being enough for a task of \<open>k\<close> steps.
\<close>

definition completion :: "nat \<Rightarrow> nat \<Rightarrow> nat list" where
  "completion k n = concat (map (replicate k) [0..<n])"

definition gui_pool ::
  "env \<Rightarrow> (nat \<Rightarrow> bool) \<Rightarrow> bytes \<Rightarrow> bool \<Rightarrow> bool \<Rightarrow> (nat \<times> nat) list \<Rightarrow> nat list \<Rightarrow> store
     \<Rightarrow> phase list \<times> store" where
  "gui_pool e stop data enable_md5 enable_type_detect tasks schedule st =
     par_exec (gui_task_step e stop data enable_md5 enable_type_detect) tasks
       (schedule @ completion 7 (length tasks)) (replicate (length tasks) At_entry, st)"

definition cli_pool ::
  "env \<Rightarrow> bytes \<Rightarrow> (nat \<times> nat) list \<Rightarrow> nat list \<Rightarrow> store \<Rightarrow> cli_phase list \<times> store" where
  "cli_pool e data tasks schedule st =
     par_exec (cli_task_step e data) tasks
       (schedule @ completion 3 (length tasks)) (replicate (length tasks) Cli_entry, st)"

text \<open>\<open>future.result()\<close>.\<close>

definition gui_result :: "phase \<Rightarrow> (bool \<times> status_msg \<times> info option) option" where
  "gui_result ph = (case ph of Returned r \<Rightarrow> Some r | _ \<Rightarrow> None)"

definition cli_result :: "cli_phase \<Rightarrow> (bool \<times> status_msg) option" where
  "cli_result ph = (case ph of Cli_returned r \<Rightarrow> Some r | _ \<Rightarrow> None)"

text \<open>
  The fast branch of \<open>extract_zstd_container\<close> (lines 152-167): every frame is submitted,
  and the results are counted in the order of submission.
\<close>

definition cli_extract_zstd_container_fast ::
  "env \<Rightarrow> bytes \<Rightarrow> nat list \<Rightarrow> store \<Rightarrow> nat \<times> status_msg list \<times> store" where
  "cli_extract_zstd_container_fast e data schedule st =
    (let frame_positions = scan_zstd_frames data;
         (phs, st') = cli_pool e data (enumerate 0 frame_positions) schedule
                        (st\<lparr>extracted_hashes := {}\<rparr>);
         results = List.map_filter cli_result phs
     in (length (filter fst results), map snd results, st'))"

text \<open>
  The fast branch of \<open>ExtractWorker.run\<close> (lines 344-374).  The main thread reads the flag
  before each submission and before each \<open>future.result()\<close> and leaves the loop at the first
  read that sees it set: \<open>submitted\<close> and \<open>collected\<close> say how far the two loops get (all
  the way when the flag is never set).
\<close>

definition gui_run_fast ::
  "env \<Rightarrow> (nat \<Rightarrow> bool) \<Rightarrow> bool \<Rightarrow> bool \<Rightarrow> bytes option \<Rightarrow> nat \<Rightarrow> nat \<Rightarrow> nat list \<Rightarrow> store
     \<Rightarrow> run_result" where
  "gui_run_fast e stop enable_md5 enable_type_detect input submitted collected schedule st =
    (case input of
       None \<Rightarrow> \<lparr>outcome = Run_error, total_frames = 0, log = [], final = st\<rparr>
     | Some data \<Rightarrow>
         let frame_positions = scan_zstd_frames data;
             total = length frame_positions
         in case stop_flag Main_loop stop st of (s, st1) \<Rightarrow>
           if s then \<lparr>outcome = Run_finished 0, total_frames = total, log = [], final = st1\<rparr>
           else if total = 0
           then \<lparr>outcome = Run_finished 0, total_frames = total, log = [], final = st1\<rparr>
           else
             let tasks = take submitted (enumerate 0 frame_positions);
                 (phs, st2) = gui_pool e stop data enable_md5 enable_type_detect tasks schedule
                                (st1\<lparr>extracted_hashes := {}\<rparr>);
                 results = List.map_filter gui_result (take collected phs);
                 extracted_count =
                   length (filter (\<lambda>(ok, msg, info). ok \<and> info \<noteq> None) results)
             in case stop_flag Main_loop stop st2 of (s', st3) \<Rightarrow>
                  \<lparr>outcome = Run_finished extracted_count, total_frames = total,
                   log = map (\<lambda>(ok, msg, info). msg) results, final = st3\<rparr>)"


section \<open>Sample inputs\<close>

text \<open>
  Concrete inputs for the examples below.  \<open>png_frame\<close> is a zstd frame that stores the four
  bytes of the PNG signature in one raw block (magic, frame header \<open>20 04\<close>, block header
  \<open>21 00 00\<close>, payload); \<open>truncated_frame\<close> is a frame cut off after its header.
  \<open>sample_decompress\<close> decodes the frames of this one shape (single segment, one raw block
  of fewer than 32 bytes) and fails on everything else; \<open>sample_md5\<close> is a stand-in hash.
  The theorems hold for every decompressor and hash; these two only instantiate them.
\<close>

definition png_frame :: bytes where
  "png_frame = [CHR 0x28, CHR 0xB5, CHR 0x2F, CHR 0xFD, CHR 0x20, CHR 0x04, CHR 0x21,
                CHR 0x00, CHR 0x00, CHR 0x89, CHR ''P'', CHR ''N'', CHR ''G'']"

definition truncated_frame :: bytes where
  "truncated_frame = [CHR 0x28, CHR 0xB5, CHR 0x2F, CHR 0xFD, CHR 0x20, CHR 0x04]"

definition sample_decompress :: "bytes \<Rightarrow> bytes option" where
  "sample_decompress bs =
     (if length bs \<ge> 9 \<and> take 5 bs = ZSTD_MAGIC @ [CHR 0x20]
         \<and> (of_char (bs ! 5) :: nat) < 32
         \<and> (of_char (bs ! 6) :: nat) = 8 * of_char (bs ! 5) + 1
         \<and> bs ! 7 = CHR 0x00 \<and> bs ! 8 = CHR 0x00
         \<and> length bs \<ge> 9 + of_char (bs ! 5)
      then Some (take (of_char (bs ! 5)) (drop 9 bs)) else None)"

definition sample_md5 :: "bytes \<Rightarrow> fingerprint" where
  "sample_md5 bs = foldl (\<lambda>h c. 257 * h + of_char c + 1) 0 bs"

definition sample_env :: env where
  "sample_env = \<lparr>decompress = sample_decompress, md5 = sample_md5,
                  mkdir_ok = (\<lambda>_. True), write_ok = (\<lambda>_. True)\<rparr>"

definition empty_store :: store where
  "empty_store = \<lparr>extracted_hashes = {}, written = [], polls = 0, events = []\<rparr>"

lemma sample_decompress_png_frame: "sample_decompress png_frame = Some PNG_MAGIC"
  by (simp add: png_frame_def sample_decompress_def ZSTD_MAGIC_def PNG_MAGIC_def)

lemma sample_decompress_two_png_frames:
  "sample_decompress (png_frame @ png_frame) = Some PNG_MAGIC"
  by (simp add: png_frame_def sample_decompress_def ZSTD_MAGIC_def PNG_MAGIC_def)

lemma sample_decompress_truncated_frame: "sample_decompress truncated_frame = None"
  by (simp add: truncated_frame_def sample_decompress_def ZSTD_MAGIC_def)

lemma sample_md5_PNG_MAGIC: "sample_md5 PNG_MAGIC = 2347864178"
  by (simp add: sample_md5_def PNG_MAGIC_def)

lemma detect_PNG_MAGIC: "detect_file_extension PNG_MAGIC = ''.png''"
  by (simp add: detect_file_extension_def PNG_MAGIC_def MESH_MAGIC_def)

lemma category_of_png: "category_of ''.png'' = Image"
  by (simp add: category_of_def FILE_CATEGORY_MAP_def)

lemma category_of_empty: "category_of '''' = Unknown"
  by (simp add: category_of_def FILE_CATEGORY_MAP_def)

lemma scan_png_frame: "scan_zstd_frames png_frame = [0]"
  by (simp add: scan_zstd_frames_def scan_from.simps find.simps png_frame_def ZSTD_MAGIC_def)

lemma scan_two_png_frames: "scan_zstd_frames (png_frame @ png_frame) = [0, 13]"
  by (simp add: scan_zstd_frames_def scan_from.simps find.simps png_frame_def ZSTD_MAGIC_def)

lemma scan_truncated_frame: "scan_zstd_frames truncated_frame = [0]"
  by (simp add: scan_zstd_frames_def scan_from.simps find.simps truncated_frame_def ZSTD_MAGIC_def)

definition two_png_frames :: bytes where
  "two_png_frames = png_frame @ png_frame"

definition empty_ppk_store :: ppk_store where
  "empty_ppk_store = \<lparr>DUPLICATE_MD5 = {}, saved = [], trace = []\<rparr>"

lemma length_png_frame: "length png_frame = 13"
  by (simp add: png_frame_def)

lemma length_two_png_frames: "length two_png_frames = 26"
  by (simp add: two_png_frames_def png_frame_def)

lemma scan_two: "scan_zstd_frames two_png_frames = [0, 13]"
  by (simp add: two_png_frames_def scan_two_png_frames)

lemma drop_two_png_frames: "drop 13 two_png_frames = png_frame"
  by (simp add: two_png_frames_def png_frame_def)

lemma take_two_png_frames: "take 13 two_png_frames = png_frame"
  by (simp add: two_png_frames_def png_frame_def)

lemma sample_decompress_two: "sample_decompress two_png_frames = Some PNG_MAGIC"
  by (simp add: two_png_frames_def sample_decompress_two_png_frames)




text \<open>The frame of \<open>png_frame\<close> followed by zero bytes up to a length of 1024.\<close>

definition padded_frame :: bytes where
  "padded_frame = png_frame @ replicate 1011 (CHR 0x00)"

lemma length_padded_frame: "length padded_frame = 1024"
  by (simp add: padded_frame_def png_frame_def)

lemma sample_decompress_padded_frame: "sample_decompress padded_frame = Some PNG_MAGIC"
  by (simp add: padded_frame_def png_frame_def sample_decompress_def ZSTD_MAGIC_def
      PNG_MAGIC_def)


section \<open>The checkpoints of a task\<close>

text \<open>The four messages of an interrupted task.\<close>

definition is_interrupted :: "status_msg \<Rightarrow> bool" where
  "is_interrupted m =
     (case m of
        Interrupted_not_started \<Rightarrow> True
      | Interrupted_skip_decompress _ _ \<Rightarrow> True
      | Interrupted_decompressed_not_written _ _ \<Rightarrow> True
      | Interrupted_not_written _ _ \<Rightarrow> True
      | _ \<Rightarrow> False)"

text \<open>
  The message of the \<open>k\<close>-th read of the flag in \<open>extract_single_frame\<close>, counted from 0:
  lines 135, 141, 146 and 168.
\<close>

definition checkpoint_msg :: "nat \<Rightarrow> nat \<Rightarrow> nat \<Rightarrow> status_msg" where
  "checkpoint_msg frame_idx frame_start k =
     (if k = 0 then Interrupted_not_started
      else if k = 1 then Interrupted_skip_decompress frame_idx frame_start
      else if k = 2 then Interrupted_decompressed_not_written frame_idx frame_start
      else Interrupted_not_written frame_idx frame_start)"

text \<open>
  Where the four checkpoints sit, as the amended claim has it: the actions of a task that
  nothing ends early, in order.  A read of the flag on entry; a read right before the
  decompressor is called; the decompression; and, when it succeeds, a read before the
  fingerprint is tested; the membership test (with deduplication on); the classification
  (with type detection on); the creation of the folder; a read right before the write; the
  write; the fingerprint added (with deduplication on).  \<open>p\<close> is the number of reads of
  the flag made before the task.
\<close>

definition checkpoint_plan ::
  "env \<Rightarrow> (nat \<Rightarrow> bool) \<Rightarrow> bytes \<Rightarrow> nat \<Rightarrow> nat \<Rightarrow> bool \<Rightarrow> bool \<Rightarrow> nat \<Rightarrow> event list" where
  "checkpoint_plan e stop data frame_start frame_idx enable_md5 enable_type_detect p =
     [Flag_read (Task frame_idx) (stop p),
      Flag_read (Task frame_idx) (stop (p + 1)),
      Decompress_called frame_idx frame_start]
     @ (case decompress e (drop frame_start data) of
          None \<Rightarrow> []
        | Some decompressed \<Rightarrow>
            [Flag_read (Task frame_idx) (stop (p + 2))]
            @ (if enable_md5 then [Membership_tested frame_idx (md5 e decompressed)] else [])
            @ (if enable_type_detect then [Classified frame_idx] else [])
            @ [Mkdir_called frame_idx
                 (category_of
                    (if enable_type_detect then detect_file_extension decompressed else '''')),
               Flag_read (Task frame_idx) (stop (p + 3)),
               File_written frame_idx
                 (Frame_file
                    (category_of
                       (if enable_type_detect then detect_file_extension decompressed else ''''))
                    (frame_idx + 1)
                    (if enable_type_detect then detect_file_extension decompressed else ''''))]
            @ (if enable_md5 then [Fingerprint_added frame_idx (md5 e decompressed)] else []))"

lemma three_reads: "p \<le> k \<Longrightarrow> k < p + 3 \<Longrightarrow> k = p \<or> k = Suc p \<or> k = Suc (Suc p)"
  by arith

lemma gui_task_facts:
  "case gui_extract_single_frame e stop data frame_start frame_idx md ty st of
     ((ok, msg, info), st') \<Rightarrow>
        polls st < polls st' \<and> polls st' \<le> polls st + 4
         \<and> (\<forall>k. polls st \<le> k \<and> k + 1 < polls st' \<longrightarrow> \<not> stop k)
         \<and> is_interrupted msg = stop (polls st' - 1)
         \<and> (is_interrupted msg \<longrightarrow>
               msg = checkpoint_msg frame_idx frame_start (polls st' - 1 - polls st)
               \<and> \<not> ok \<and> info = None \<and> written st' = written st
               \<and> extracted_hashes st' = extracted_hashes st)
         \<and> (ok \<longrightarrow> polls st' = polls st + 4)"
  by (auto simp: gui_extract_single_frame_def stop_flag_def logged_def Let_def
      is_interrupted_def checkpoint_msg_def split: option.split dest: three_reads)

text \<open>A read of the stop flag by the task of frame \<open>i\<close>.\<close>

definition is_read :: "nat \<Rightarrow> event \<Rightarrow> bool" where
  "is_read i ev = (ev = Flag_read (Task i) True \<or> ev = Flag_read (Task i) False)"

lemma gui_task_actions:
  "case gui_extract_single_frame e stop data frame_start frame_idx md ty st of
     ((ok, msg, info), st') \<Rightarrow>
        prefix (events st')
          (events st @ checkpoint_plan e stop data frame_start frame_idx md ty (polls st))
        \<and> length (events st) < length (events st')
        \<and> is_interrupted msg = (last (events st') = Flag_read (Task frame_idx) True)
        \<and> Flag_read (Task frame_idx) True
             \<notin> set (butlast (drop (length (events st)) (events st')))
        \<and> length (filter (is_read frame_idx) (drop (length (events st)) (events st')))
            + polls st = polls st'
        \<and> (ok \<longrightarrow>
              events st'
                = events st @ checkpoint_plan e stop data frame_start frame_idx md ty (polls st))"
  by (auto simp: gui_extract_single_frame_def stop_flag_def logged_def Let_def
      is_interrupted_def checkpoint_plan_def is_read_def eval_nat_numeral split: option.split)

lemma checkpoint_msg_inj:
  "j < 4 \<Longrightarrow> k < 4 \<Longrightarrow> checkpoint_msg frame_idx frame_start j = checkpoint_msg frame_idx frame_start k
     \<Longrightarrow> j = k"
  by (auto simp: checkpoint_msg_def split: if_splits)


text \<open>
  The steps of a task of the pool, taken one after the other with nothing in between, are
  \<open>extract_single_frame\<close>: same result, same state, same actions.
\<close>

lemma gui_task_steps:
  "((\<lambda>(ph, s). gui_task_step e stop data md ty (frame_idx, frame_start) ph s) ^^ 7)
       (At_entry, st)
     = (case gui_extract_single_frame e stop data frame_start frame_idx md ty st of
          (r, st') \<Rightarrow> (Returned r, st'))"
  by (simp add: eval_nat_numeral gui_task_step_def gui_extract_single_frame_def stop_flag_def
      logged_def Let_def split: option.split)

lemma cli_task_steps:
  "((\<lambda>(ph, s). cli_task_step e data (frame_idx, frame_start) ph s) ^^ 3) (Cli_entry, st)
     = (case cli_extract_single_frame e data frame_start frame_idx st of
          (r, st') \<Rightarrow> (Cli_returned r, st'))"
  by (simp add: eval_nat_numeral cli_task_step_def cli_extract_single_frame_def
      logged_def Let_def split: option.split)


text \<open>
  Claim C8, as amended.  A task of the worker reads the stop flag at four checkpoints, not
  three, and they sit where \<open>checkpoint_plan\<close> puts them: on entry (line 135), right
  before decompressing (line 141), after decompressing and before the fingerprint check
  (line 146), and after classification and the creation of the folder, right before the
  write (line 168).  The actions of a task are an initial part of that plan, and all of it
  when the task extracts a file; the task makes at least one action, ends with the first
  read that sees the flag set and does nothing after it; the reads among its actions are the
  reads it is counted for, between one and four; it reports an interruption exactly when its
  last action is a read that saw the flag set, with the message of that checkpoint, and two
  runs of the task interrupted at different checkpoints report different messages; an
  interrupted task is not ok, has no file information, and leaves the files and the
  fingerprints as they were.  The seven steps a task of the thread pool is made of, taken
  together, are this same function.
\<close>

theorem gui_task_four_checkpoints:
  assumes "gui_extract_single_frame e stop data frame_start frame_idx enable_md5
             enable_type_detect st = ((ok, msg, info), st')"
  shows "(prefix (events st')
            (events st @ checkpoint_plan e stop data frame_start frame_idx enable_md5
                           enable_type_detect (polls st))
          \<and> length (events st) < length (events st')
          \<and> is_interrupted msg = (last (events st') = Flag_read (Task frame_idx) True)
          \<and> Flag_read (Task frame_idx) True
               \<notin> set (butlast (drop (length (events st)) (events st')))
          \<and> length (filter (is_read frame_idx) (drop (length (events st)) (events st')))
              + polls st = polls st'
          \<and> (ok \<longrightarrow>
                events st'
                  = events st @ checkpoint_plan e stop data frame_start frame_idx enable_md5
                                  enable_type_detect (polls st)))
         \<and> (polls st < polls st' \<and> polls st' \<le> polls st + 4
          \<and> (\<forall>k. polls st \<le> k \<and> k + 1 < polls st' \<longrightarrow> \<not> stop k)
          \<and> is_interrupted msg = stop (polls st' - 1)
          \<and> (is_interrupted msg \<longrightarrow>
                msg = checkpoint_msg frame_idx frame_start (polls st' - 1 - polls st)
                \<and> \<not> ok \<and> info = None \<and> written st' = written st
                \<and> extracted_hashes st' = extracted_hashes st)
          \<and> (ok \<longrightarrow> polls st' = polls st + 4))
         \<and> ((\<lambda>(ph, s). gui_task_step e stop data enable_md5 enable_type_detect
                          (frame_idx, frame_start) ph s) ^^ 7) (At_entry, st)
              = (Returned (ok, msg, info), st')
         \<and> (\<forall>stop2 ok2 msg2 info2 st2.
               gui_extract_single_frame e stop2 data frame_start frame_idx enable_md5
                 enable_type_detect st = ((ok2, msg2, info2), st2)
               \<and> is_interrupted msg \<and> is_interrupted msg2 \<and> polls st2 \<noteq> polls st'
               \<longrightarrow> msg2 \<noteq> msg)"
proof -
  note a = gui_task_actions [where e = e and stop = stop and data = data
      and frame_start = frame_start and frame_idx = frame_idx and md = enable_md5
      and ty = enable_type_detect and st = st]
  from a [unfolded assms prod.case]
  have A: "prefix (events st')
            (events st @ checkpoint_plan e stop data frame_start frame_idx enable_md5
                           enable_type_detect (polls st))
          \<and> length (events st) < length (events st')
          \<and> is_interrupted msg = (last (events st') = Flag_read (Task frame_idx) True)
          \<and> Flag_read (Task frame_idx) True
               \<notin> set (butlast (drop (length (events st)) (events st')))
          \<and> length (filter (is_read frame_idx) (drop (length (events st)) (events st')))
              + polls st = polls st'
          \<and> (ok \<longrightarrow>
                events st'
                  = events st @ checkpoint_plan e stop data frame_start frame_idx enable_md5
                                  enable_type_detect (polls st))" .
  note f = gui_task_facts [where e = e and stop = stop and data = data
      and frame_start = frame_start and frame_idx = frame_idx and md = enable_md5
      and ty = enable_type_detect and st = st]
  from f [unfolded assms prod.case]
  have B: "polls st < polls st' \<and> polls st' \<le> polls st + 4
          \<and> (\<forall>k. polls st \<le> k \<and> k + 1 < polls st' \<longrightarrow> \<not> stop k)
          \<and> is_interrupted msg = stop (polls st' - 1)
          \<and> (is_interrupted msg \<longrightarrow>
                msg = checkpoint_msg frame_idx frame_start (polls st' - 1 - polls st)
                \<and> \<not> ok \<and> info = None \<and> written st' = written st
                \<and> extracted_hashes st' = extracted_hashes st)
          \<and> (ok \<longrightarrow> polls st' = polls st + 4)" .
  note l = gui_task_steps [where e = e and stop = stop and data = data
      and frame_start = frame_start and frame_idx = frame_idx and md = enable_md5
      and ty = enable_type_detect and st = st]
  from l [unfolded assms prod.case]
  have C: "((\<lambda>(ph, s). gui_task_step e stop data enable_md5 enable_type_detect
                          (frame_idx, frame_start) ph s) ^^ 7) (At_entry, st)
              = (Returned (ok, msg, info), st')" .
  have D: "\<forall>stop2 ok2 msg2 info2 st2.
               gui_extract_single_frame e stop2 data frame_start frame_idx enable_md5
                 enable_type_detect st = ((ok2, msg2, info2), st2)
               \<and> is_interrupted msg \<and> is_interrupted msg2 \<and> polls st2 \<noteq> polls st'
               \<longrightarrow> msg2 \<noteq> msg"
  proof (intro allI impI, elim conjE)
    fix stop2 ok2 msg2 info2 st2
    assume r2: "gui_extract_single_frame e stop2 data frame_start frame_idx enable_md5
                 enable_type_detect st = ((ok2, msg2, info2), st2)"
      and i: "is_interrupted msg" and i2: "is_interrupted msg2" and d: "polls st2 \<noteq> polls st'"
    note f = gui_task_facts [where e = e and stop = stop and data = data
      and frame_start = frame_start and frame_idx = frame_idx and md = enable_md5
      and ty = enable_type_detect and st = st, unfolded assms prod.case]
    note g = gui_task_facts [where e = e and stop = stop2 and data = data
      and frame_start = frame_start and frame_idx = frame_idx and md = enable_md5
      and ty = enable_type_detect and st = st, unfolded r2 prod.case]
    from f have b: "polls st < polls st'" "polls st' \<le> polls st + 4" by blast+
    from g have c: "polls st < polls st2" "polls st2 \<le> polls st + 4" by blast+
    from f i have m: "msg = checkpoint_msg frame_idx frame_start (polls st' - 1 - polls st)"
      by blast
    from g i2 have m2: "msg2 = checkpoint_msg frame_idx frame_start (polls st2 - 1 - polls st)"
      by blast
    from b c d have k: "polls st' - 1 - polls st < 4" "polls st2 - 1 - polls st < 4"
      "polls st2 - 1 - polls st \<noteq> polls st' - 1 - polls st" by arith+
    show "msg2 \<noteq> msg"
    proof
      assume "msg2 = msg"
      with m m2 have "checkpoint_msg frame_idx frame_start (polls st2 - 1 - polls st)
                        = checkpoint_msg frame_idx frame_start (polls st' - 1 - polls st)"
        by (simp only:)
      from checkpoint_msg_inj [OF k(2) k(1) this] k(3) show False by (rule notE [rotated])
    qed
  qed
  show ?thesis by (rule conjI [OF A conjI [OF B conjI [OF C D]]])
qed

lemma gui_task_stopped_at_fourth_read:
  "gui_extract_single_frame sample_env (\<lambda>k. k = 3) png_frame 0 0 True True empty_store
     = ((False, Interrupted_not_written 0 0, None),
        \<lparr>extracted_hashes = {}, written = [], polls = 4,
         events = [Flag_read (Task 0) False, Flag_read (Task 0) False, Decompress_called 0 0,
                   Flag_read (Task 0) False, Membership_tested 0 2347864178, Classified 0,
                   Mkdir_called 0 Image, Flag_read (Task 0) True]\<rparr>)"
  by (simp add: gui_extract_single_frame_def stop_flag_def logged_def sample_env_def
      empty_store_def sample_decompress_png_frame sample_md5_PNG_MAGIC detect_PNG_MAGIC
      category_of_png Let_def)

theorem gui_task_four_checkpoints_witness:
  "gui_extract_single_frame sample_env (\<lambda>k. k = 3) png_frame 0 0 True True empty_store
     = ((False, Interrupted_not_written 0 0, None),
        \<lparr>extracted_hashes = {}, written = [], polls = 4,
         events = [Flag_read (Task 0) False, Flag_read (Task 0) False, Decompress_called 0 0,
                   Flag_read (Task 0) False, Membership_tested 0 2347864178, Classified 0,
                   Mkdir_called 0 Image, Flag_read (Task 0) True]\<rparr>)
   \<and> is_interrupted (Interrupted_not_written 0 0)
   \<and> Interrupted_not_written 0 0 = checkpoint_msg 0 0 3
   \<and> prefix [Flag_read (Task 0) False, Flag_read (Task 0) False, Decompress_called 0 0,
               Flag_read (Task 0) False, Membership_tested 0 2347864178, Classified 0,
               Mkdir_called 0 Image, Flag_read (Task 0) True]
        (checkpoint_plan sample_env (\<lambda>k. k = 3) png_frame 0 0 True True 0)"
proof -
  note t = gui_task_four_checkpoints [OF gui_task_stopped_at_fourth_read]
  from t have "prefix
      (events \<lparr>extracted_hashes = {}, written = [], polls = 4,
         events = [Flag_read (Task 0) False, Flag_read (Task 0) False, Decompress_called 0 0,
                   Flag_read (Task 0) False, Membership_tested 0 2347864178, Classified 0,
                   Mkdir_called 0 Image, Flag_read (Task 0) True]\<rparr>)
      (events empty_store
         @ checkpoint_plan sample_env (\<lambda>k. k = 3) png_frame 0 0 True True (polls empty_store))"
    by (rule conjunct1 [OF conjunct1])
  then have p: "prefix [Flag_read (Task 0) False, Flag_read (Task 0) False,
               Decompress_called 0 0,
               Flag_read (Task 0) False, Membership_tested 0 2347864178, Classified 0,
               Mkdir_called 0 Image, Flag_read (Task 0) True]
        (checkpoint_plan sample_env (\<lambda>k. k = 3) png_frame 0 0 True True 0)"
    by (simp add: empty_store_def)
  have q: "is_interrupted (Interrupted_not_written 0 0)
        \<and> Interrupted_not_written 0 0 = checkpoint_msg 0 0 3"
    by (simp add: is_interrupted_def checkpoint_msg_def)
  show ?thesis
    by (rule conjI [OF gui_task_stopped_at_fourth_read
          conjI [OF conjunct1 [OF q] conjI [OF conjunct2 [OF q] p]]])
qed

text \<open>
  The claim as stated fails: the same task, on the same frame, stopped at four different
  moments, gives four different interruption messages; and a task that is never stopped reads
  the flag four times, twice before it decompresses, once after, and a fourth time after the
  classification and the creation of the folder, not before them.
\<close>

theorem gui_task_three_checkpoints_counterexample:
  "fst (gui_extract_single_frame sample_env (\<lambda>k. k = 0) png_frame 0 0 True True empty_store)
     = (False, Interrupted_not_started, None)
   \<and> fst (gui_extract_single_frame sample_env (\<lambda>k. k = 1) png_frame 0 0 True True empty_store)
     = (False, Interrupted_skip_decompress 0 0, None)
   \<and> fst (gui_extract_single_frame sample_env (\<lambda>k. k = 2) png_frame 0 0 True True empty_store)
     = (False, Interrupted_decompressed_not_written 0 0, None)
   \<and> fst (gui_extract_single_frame sample_env (\<lambda>k. k = 3) png_frame 0 0 True True empty_store)
     = (False, Interrupted_not_written 0 0, None)
   \<and> polls (snd (gui_extract_single_frame sample_env (\<lambda>k. False) png_frame 0 0 True True
                    empty_store)) = 4
   \<and> polls (snd (gui_extract_single_frame sample_env (\<lambda>k. False) png_frame 0 0 True True
                    empty_store)) \<noteq> 3
   \<and> events (snd (gui_extract_single_frame sample_env (\<lambda>k. False) png_frame 0 0 True True
                     empty_store))
       = [Flag_read (Task 0) False, Flag_read (Task 0) False, Decompress_called 0 0,
          Flag_read (Task 0) False, Membership_tested 0 2347864178, Classified 0,
          Mkdir_called 0 Image, Flag_read (Task 0) False,
          File_written 0 (Frame_file Image 1 ''.png''), Fingerprint_added 0 2347864178]"
  by (simp add: gui_extract_single_frame_def stop_flag_def logged_def sample_env_def
      empty_store_def sample_decompress_png_frame sample_md5_PNG_MAGIC detect_PNG_MAGIC
      category_of_png Let_def)


section \<open>Counting what a run extracts\<close>

text \<open>The number a run reports: the argument of \<open>finished_signal\<close>.\<close>

definition artifacts_extracted :: "run_result \<Rightarrow> nat" where
  "artifacts_extracted r = (case outcome r of Run_finished n \<Rightarrow> n | Run_error \<Rightarrow> 0)"

lemma cli_task_written:
  "case cli_extract_single_frame e data frame_start frame_idx st of
     ((result, msg), st') \<Rightarrow>
       length (written st') = length (written st) + (if result then 1 else 0)
       \<and> extracted_hashes st \<subseteq> extracted_hashes st'"
  by (auto simp: cli_extract_single_frame_def logged_def Let_def split: option.split)

lemma cli_serial_loop_count:
  "case cli_serial_loop e data frames c lg st of
     (c', lg', st') \<Rightarrow>
       c \<le> c' \<and> c' \<le> c + length frames \<and> length lg' = length lg + length frames
       \<and> length (written st') + c = length (written st) + c'"
proof (induction frames arbitrary: c lg st)
  case Nil
  show ?case by simp
next
  case (Cons f frames)
  obtain i frame_start where f: "f = (i, frame_start)" by (cases f)
  obtain result msg st1 where
    t: "cli_extract_single_frame e data frame_start i st = ((result, msg), st1)"
    by (metis prod.exhaust)
  from cli_task_written [where e = e and data = data and frame_start = frame_start
      and frame_idx = i and st = st] t
  have w: "length (written st1) = length (written st) + (if result then 1 else 0)" by simp
  from Cons.IH [where c = "if result then c + 1 else c" and lg = "lg @ [msg]" and st = st1] w
  show ?case by (auto simp: f t split: prod.splits if_splits)
qed

lemma gui_task_written:
  "case gui_extract_single_frame e stop data frame_start frame_idx md ty st of
     ((ok, msg, info), st') \<Rightarrow>
       length (written st') = length (written st) + (if ok \<and> info \<noteq> None then 1 else 0)
       \<and> extracted_hashes st \<subseteq> extracted_hashes st'"
  by (auto simp: gui_extract_single_frame_def stop_flag_def logged_def Let_def split: option.split)

lemma gui_serial_loop_count:
  "case gui_serial_loop e stop data md ty frames c lg st of
     (c', lg', st') \<Rightarrow>
       c \<le> c' \<and> c' \<le> c + length frames \<and> length lg' \<le> length lg + length frames
       \<and> length (written st') + c = length (written st) + c'"
proof (induction frames arbitrary: c lg st)
  case Nil
  show ?case by simp
next
  case (Cons f frames)
  obtain i frame_start where f: "f = (i, frame_start)" by (cases f)
  show ?case
  proof (cases "stop (polls st)")
    case True
    then show ?thesis by (simp add: f stop_flag_def)
  next
    case False
    define st0 where "st0 = snd (stop_flag Main_loop stop st)"
    obtain ok msg info st1 where
      t: "gui_extract_single_frame e stop data frame_start i md ty st0 = ((ok, msg, info), st1)"
      by (metis prod.exhaust)
    from gui_task_written [where e = e and stop = stop and data = data
        and frame_start = frame_start and frame_idx = i and md = md and ty = ty and st = st0] t
    have w: "length (written st1)
               = length (written st) + (if ok \<and> info \<noteq> None then 1 else 0)"
      by (simp add: st0_def stop_flag_def)
    from Cons.IH [where c = "if ok \<and> info \<noteq> None then c + 1 else c" and lg = "lg @ [msg]"
        and st = st1] w
    have "case gui_serial_loop e stop data md ty frames
                 (if ok \<and> info \<noteq> None then c + 1 else c) (lg @ [msg]) st1 of
            (c', lg', st') \<Rightarrow>
              c \<le> c' \<and> c' \<le> c + length (f # frames)
              \<and> length lg' \<le> length lg + length (f # frames)
              \<and> length (written st') + c = length (written st) + c'"
      by (auto split: prod.splits if_splits)
    moreover from False have "stop_flag Main_loop stop st = (False, st0)"
      by (simp add: st0_def stop_flag_def)
    ultimately show ?thesis using t
      by (simp add: f)
  qed
qed


lemma par_step_length: "length (fst (par_step step tasks cfg i)) = length (fst cfg)"
  by (simp add: par_step_def split: prod.split)

lemma par_exec_length: "length (fst (par_exec step tasks schedule cfg)) = length (fst cfg)"
  unfolding par_exec_def
  by (induction schedule arbitrary: cfg) (simp_all add: par_step_length)

lemma length_map_filter_le: "length (List.map_filter f xs) \<le> length xs"
  by (simp add: List.map_filter_def)

text \<open>
  A task writes at most one file: once it has written, or returned, it writes no more.
\<close>

definition may_write :: "phase \<Rightarrow> nat" where
  "may_write ph = (case ph of Marking _ \<Rightarrow> 0 | Returned _ \<Rightarrow> 0 | _ \<Rightarrow> 1)"

definition cli_may_write :: "cli_phase \<Rightarrow> nat" where
  "cli_may_write ph = (case ph of Cli_marking _ \<Rightarrow> 0 | Cli_returned _ \<Rightarrow> 0 | _ \<Rightarrow> 1)"

lemma gui_task_step_writes:
  "case gui_task_step e stop data md ty task ph st of
     (ph', st') \<Rightarrow> length (written st') + may_write ph' \<le> length (written st) + may_write ph"
  by (cases ph)
     (auto simp: gui_task_step_def stop_flag_def logged_def may_write_def Let_def
       split: prod.split option.split)

lemma cli_task_step_writes:
  "case cli_task_step e data task ph st of
     (ph', st') \<Rightarrow>
       length (written st') + cli_may_write ph' \<le> length (written st) + cli_may_write ph"
  by (cases ph)
     (auto simp: cli_task_step_def logged_def cli_may_write_def Let_def
       split: prod.split option.split)

lemma sum_list_map_update:
  fixes f :: "'a \<Rightarrow> nat"
  assumes "i < length xs"
  shows "sum_list (map f (xs[i := y])) + f (xs ! i) = sum_list (map f xs) + f y"
proof -
  from assms have "i < length (map f xs)" by simp
  from sum_list_update [OF this, of "f y"] assms
  have "sum_list (map f (xs[i := y])) = sum_list (map f xs) + f y - f (xs ! i)"
    by (simp add: map_update)
  moreover from assms have "f (xs ! i) \<le> sum_list (map f xs)"
    by (simp add: member_le_sum_list)
  ultimately show ?thesis by simp
qed

lemma par_step_writes:
  fixes pot :: "'p \<Rightarrow> nat"
  assumes step: "\<And>task ph st. case step task ph st of
     (ph', st') \<Rightarrow> length (written st') + pot ph' \<le> length (written st) + pot ph"
  shows "case par_step step tasks (phs, st) i of
     (phs', st') \<Rightarrow>
       length (written st') + sum_list (map pot phs')
         \<le> length (written st) + sum_list (map pot phs)"
proof (cases "i < length tasks \<and> i < length phs")
  case False
  then show ?thesis by (auto simp: par_step_def)
next
  case True
  obtain ph' st' where s: "step (tasks ! i) (phs ! i) st = (ph', st')" by (cases "step (tasks ! i) (phs ! i) st")
  from step [where task = "tasks ! i" and ph = "phs ! i" and st = st] s
  have "length (written st') + pot ph' \<le> length (written st) + pot (phs ! i)" by simp
  moreover from True sum_list_map_update [where i = i and xs = phs and f = pot and y = ph']
  have "sum_list (map pot (phs[i := ph'])) + pot (phs ! i) = sum_list (map pot phs) + pot ph'"
    by simp
  ultimately have "length (written st') + sum_list (map pot (phs[i := ph']))
                     \<le> length (written st) + sum_list (map pot phs)"
    by arith
  with True s show ?thesis by (simp add: par_step_def)
qed

lemma par_exec_writes:
  fixes pot :: "'p \<Rightarrow> nat"
  assumes step: "\<And>task ph st. case step task ph st of
     (ph', st') \<Rightarrow> length (written st') + pot ph' \<le> length (written st) + pot ph"
  shows "case par_exec step tasks schedule (phs, st) of
     (phs', st') \<Rightarrow>
       length (written st') + sum_list (map pot phs')
         \<le> length (written st) + sum_list (map pot phs)"
proof (induction schedule arbitrary: phs st)
  case Nil
  show ?case by (simp add: par_exec_def)
next
  case (Cons i schedule)
  obtain phs1 st1 where s: "par_step step tasks (phs, st) i = (phs1, st1)"
    by (cases "par_step step tasks (phs, st) i")
  from par_step_writes [where step = step and pot = pot and tasks = tasks and phs = phs
      and st = st and i = i, OF step] s
  have a: "length (written st1) + sum_list (map pot phs1)
             \<le> length (written st) + sum_list (map pot phs)" by simp
  from Cons.IH [where phs = phs1 and st = st1] a s show ?case
    by (auto simp: par_exec_def split: prod.splits)
qed

lemma pool_written_bound:
  fixes pot :: "'p \<Rightarrow> nat"
  assumes step: "\<And>task ph st. case step task ph st of
     (ph', st') \<Rightarrow> length (written st') + pot ph' \<le> length (written st) + pot ph"
    and "pot init \<le> 1"
  shows "length (written (snd (par_exec step tasks schedule (replicate n init, st))))
           \<le> length (written st) + n"
proof -
  from par_exec_writes [where step = step and pot = pot and tasks = tasks
      and schedule = schedule and phs = "replicate n init" and st = st, OF step]
  have a: "length (written (snd (par_exec step tasks schedule (replicate n init, st))))
          \<le> length (written st) + sum_list (map pot (replicate n init))"
    by (auto split: prod.splits)
  have b: "sum_list (map pot (replicate n init)) \<le> n"
    using assms(2) by (induction n) auto
  from a b show ?thesis by linarith
qed


lemma cli_serial_count:
  "fst (cli_extract_zstd_container_serial e data st) \<le> length (scan_zstd_frames data)
   \<and> length (written (snd (snd (cli_extract_zstd_container_serial e data st))))
       = length (written st) + fst (cli_extract_zstd_container_serial e data st)"
  using cli_serial_loop_count [where e = e and data = data
      and frames = "enumerate 0 (scan_zstd_frames data)" and c = 0 and lg = "[]"
      and st = "st\<lparr>extracted_hashes := {}\<rparr>"]
  by (auto simp: cli_extract_zstd_container_serial_def Let_def split: prod.splits)

lemma cli_fast_count:
  "fst (cli_extract_zstd_container_fast e data schedule st) \<le> length (scan_zstd_frames data)
   \<and> length (written (snd (snd (cli_extract_zstd_container_fast e data schedule st))))
       \<le> length (written st) + length (scan_zstd_frames data)"
proof -
  define tasks where "tasks = enumerate 0 (scan_zstd_frames data)"
  obtain phs stf where
    cfg: "cli_pool e data tasks schedule (st\<lparr>extracted_hashes := {}\<rparr>) = (phs, stf)"
    by (cases "cli_pool e data tasks schedule (st\<lparr>extracted_hashes := {}\<rparr>)")
  have n: "length tasks = length (scan_zstd_frames data)" by (simp add: tasks_def)
  have "length (fst (cli_pool e data tasks schedule (st\<lparr>extracted_hashes := {}\<rparr>)))
          = length tasks"
    by (simp add: cli_pool_def par_exec_length)
  with cfg have l: "length phs = length tasks" by simp
  have "length (filter fst (List.map_filter cli_result phs))
          \<le> length (List.map_filter cli_result phs)" by simp
  also have "\<dots> \<le> length phs" by (rule length_map_filter_le)
  finally have c: "length (filter fst (List.map_filter cli_result phs))
                     \<le> length (scan_zstd_frames data)"
    using l n by simp
  have "length (written (snd (cli_pool e data tasks schedule (st\<lparr>extracted_hashes := {}\<rparr>))))
          \<le> length (written st) + length (scan_zstd_frames data)"
    unfolding cli_pool_def
    using pool_written_bound [where step = "cli_task_step e data" and pot = cli_may_write
        and init = Cli_entry and tasks = tasks
        and schedule = "schedule @ completion 3 (length tasks)"
        and n = "length tasks" and st = "st\<lparr>extracted_hashes := {}\<rparr>",
        OF cli_task_step_writes]
    by (simp add: cli_may_write_def n)
  with cfg have w: "length (written stf) \<le> length (written st) + length (scan_zstd_frames data)"
    by simp
  from c w show ?thesis
    by (simp add: cli_extract_zstd_container_fast_def Let_def tasks_def [symmetric] cfg)
qed

lemma gui_serial_count:
  "artifacts_extracted (gui_run_serial e stop md ty input st)
     \<le> total_frames (gui_run_serial e stop md ty input st)
   \<and> total_frames (gui_run_serial e stop md ty (Some data) st) = length (scan_zstd_frames data)
   \<and> length (written (final (gui_run_serial e stop md ty input st)))
       = length (written st) + artifacts_extracted (gui_run_serial e stop md ty input st)"
proof -
  have "artifacts_extracted (gui_run_serial e stop md ty input st)
          \<le> total_frames (gui_run_serial e stop md ty input st)
        \<and> length (written (final (gui_run_serial e stop md ty input st)))
          = length (written st) + artifacts_extracted (gui_run_serial e stop md ty input st)"
  proof (cases input)
    case None
    then show ?thesis by (simp add: gui_run_serial_def artifacts_extracted_def)
  next
    case (Some d)
    from gui_serial_loop_count [where e = e and stop = stop and data = d and md = md
        and ty = ty and frames = "enumerate 0 (scan_zstd_frames d)" and c = 0 and lg = "[]"
        and st = "(snd (stop_flag Main_loop stop st))\<lparr>extracted_hashes := {}\<rparr>"]
    show ?thesis
      by (auto simp: Some gui_run_serial_def artifacts_extracted_def stop_flag_def Let_def
          split: prod.splits)
  qed
  moreover have "total_frames (gui_run_serial e stop md ty (Some data) st)
                   = length (scan_zstd_frames data)"
    by (simp add: gui_run_serial_def stop_flag_def Let_def split: prod.splits)
  ultimately show ?thesis by simp
qed

lemma gui_fast_count:
  "artifacts_extracted (gui_run_fast e stop md ty input submitted collected schedule st)
     \<le> total_frames (gui_run_fast e stop md ty input submitted collected schedule st)
   \<and> total_frames (gui_run_fast e stop md ty (Some data) submitted collected schedule st)
       = length (scan_zstd_frames data)
   \<and> length (written (final (gui_run_fast e stop md ty input submitted collected schedule st)))
       \<le> length (written st)
           + total_frames (gui_run_fast e stop md ty input submitted collected schedule st)"
proof -
  have "artifacts_extracted (gui_run_fast e stop md ty input submitted collected schedule st)
          \<le> total_frames (gui_run_fast e stop md ty input submitted collected schedule st)
        \<and> length (written (final
              (gui_run_fast e stop md ty input submitted collected schedule st)))
          \<le> length (written st)
              + total_frames (gui_run_fast e stop md ty input submitted collected schedule st)"
  proof (cases input)
    case None
    then show ?thesis by (simp add: gui_run_fast_def artifacts_extracted_def)
  next
    case (Some d)
    show ?thesis
    proof (cases "stop (polls st)")
      case True
      then show ?thesis
        by (simp add: Some gui_run_fast_def artifacts_extracted_def stop_flag_def Let_def)
    next
      case False
      let ?tasks = "take submitted (enumerate 0 (scan_zstd_frames d))"
      let ?st1 = "st\<lparr>polls := Suc (polls st),
                     events := events st @ [Flag_read Main_loop False],
                     extracted_hashes := {}\<rparr>"
      obtain phs stf where cfg: "gui_pool e stop d md ty ?tasks schedule ?st1 = (phs, stf)"
        by (cases "gui_pool e stop d md ty ?tasks schedule ?st1")
      have n: "length ?tasks \<le> length (scan_zstd_frames d)" by simp
      have "length (fst (gui_pool e stop d md ty ?tasks schedule ?st1)) = length ?tasks"
        by (simp add: gui_pool_def par_exec_length)
      with cfg have l: "length phs = length ?tasks" by simp
      have "length (filter (\<lambda>(ok, msg, info). ok \<and> info \<noteq> None)
                      (List.map_filter gui_result (take collected phs)))
              \<le> length (List.map_filter gui_result (take collected phs))"
        by (rule length_filter_le)
      also have "\<dots> \<le> length (take collected phs)" by (rule length_map_filter_le)
      also have "\<dots> \<le> length phs" by simp
      finally have c: "length (filter (\<lambda>(ok, msg, info). ok \<and> info \<noteq> None)
                      (List.map_filter gui_result (take collected phs)))
                         \<le> length (scan_zstd_frames d)"
        using l n by simp
      have "length (written (snd (gui_pool e stop d md ty ?tasks schedule ?st1)))
              \<le> length (written ?st1) + length ?tasks"
        unfolding gui_pool_def
        using pool_written_bound [where step = "gui_task_step e stop d md ty" and pot = may_write
            and init = At_entry and tasks = ?tasks
            and schedule = "schedule @ completion 7 (length ?tasks)"
            and n = "length ?tasks" and st = ?st1, OF gui_task_step_writes]
        by (simp add: may_write_def)
      with n cfg have w: "length (written stf) \<le> length (written st) + length (scan_zstd_frames d)"
        by simp
      from c w False show ?thesis
        by (simp add: Some gui_run_fast_def artifacts_extracted_def stop_flag_def Let_def cfg)
    qed
  qed
  moreover have "total_frames (gui_run_fast e stop md ty (Some data) submitted collected
                   schedule st) = length (scan_zstd_frames data)"
    by (simp add: gui_run_fast_def stop_flag_def Let_def split: prod.splits)
  ultimately show ?thesis by simp
qed

text \<open>
  Claim C1.  In every run the number of artifacts extracted is at most the number of frame
  positions the scanner found: in the command-line tool and in the worker, run serially or by
  the thread pool under any schedule, whatever the decompressor, the hash and the file system
  do and whenever the stop flag is set.  The number of frames found is the length of the
  scan; the files a run writes are as many as it reports extracted when it runs serially, and
  never more than the frames found when it runs in the pool.
\<close>

theorem artifacts_extracted_le_total_frames:
  "fst (cli_extract_zstd_container_serial e data st) \<le> length (scan_zstd_frames data)
   \<and> fst (cli_extract_zstd_container_fast e data schedule st) \<le> length (scan_zstd_frames data)
   \<and> artifacts_extracted (gui_run_serial e stop md ty input st)
       \<le> total_frames (gui_run_serial e stop md ty input st)
   \<and> artifacts_extracted (gui_run_fast e stop md ty input submitted collected schedule st)
       \<le> total_frames (gui_run_fast e stop md ty input submitted collected schedule st)
   \<and> total_frames (gui_run_serial e stop md ty (Some data) st) = length (scan_zstd_frames data)
   \<and> total_frames (gui_run_fast e stop md ty (Some data) submitted collected schedule st)
       = length (scan_zstd_frames data)
   \<and> length (written (snd (snd (cli_extract_zstd_container_serial e data st))))
       = length (written st) + fst (cli_extract_zstd_container_serial e data st)
   \<and> length (written (snd (snd (cli_extract_zstd_container_fast e data schedule st))))
       \<le> length (written st) + length (scan_zstd_frames data)
   \<and> length (written (final (gui_run_serial e stop md ty input st)))
       = length (written st) + artifacts_extracted (gui_run_serial e stop md ty input st)
   \<and> length (written (final (gui_run_fast e stop md ty input submitted collected schedule st)))
       \<le> length (written st)
           + total_frames (gui_run_fast e stop md ty input submitted collected schedule st)"
  using cli_serial_count [of e data st] cli_fast_count [of e data schedule st]
    gui_serial_count [of e stop md ty input st data]
    gui_fast_count [of e stop md ty input submitted collected schedule st data]
  by simp


section \<open>Windowed blocks\<close>

text \<open>
  The windows as the specification words them: the block of a scanned signature at
  \<open>start_offset\<close> ends at the next scanned signature, or at the end of the buffer (of length
  \<open>n\<close>) when there is none, or at \<open>start_offset + MAX_BLOCK_SIZE\<close>, whichever is smaller.
\<close>

fun windows :: "nat \<Rightarrow> nat list \<Rightarrow> (nat \<times> nat) list" where
  "windows n [] = []"
| "windows n [p] = [(p, min n (p + MAX_BLOCK_SIZE))]"
| "windows n (p # q # ps) = (p, min q (p + MAX_BLOCK_SIZE)) # windows n (q # ps)"

text \<open>
  The specification's reading of the loop: the windows are visited in order, and the bytes
  \<open>[start_offset, end_offset)\<close> of each are handed to the rest of the loop body.
\<close>

fun visit_windows ::
  "env \<Rightarrow> string \<Rightarrow> bytes \<Rightarrow> (nat \<times> nat) list \<Rightarrow> nat \<Rightarrow> nat \<Rightarrow> nat \<Rightarrow> ppk_store
     \<Rightarrow> ppk_result \<times> ppk_store" where
  "visit_windows e file_name file_data [] block_idx processed_blocks extracted_blocks st =
     (Ppk_success processed_blocks extracted_blocks, st)"
| "visit_windows e file_name file_data ((start_offset, end_offset) # ws) block_idx
       processed_blocks extracted_blocks st =
     (case process_block e file_name block_idx
             (take (end_offset - start_offset) (drop start_offset file_data))
             (emit [Block_found start_offset end_offset] st) of
        (Block_skipped, st') \<Rightarrow>
          visit_windows e file_name file_data ws block_idx
            (processed_blocks + 1) extracted_blocks st'
      | (Block_extracted, st') \<Rightarrow>
          visit_windows e file_name file_data ws (block_idx + 1)
            (processed_blocks + 1) (extracted_blocks + 1) st'
      | (Block_raised, st') \<Rightarrow> (Ppk_failed, st'))"

lemma scan_from_beyond: "length data \<le> pos \<Longrightarrow> scan_from data pos = []"
  by (simp add: scan_from_filter)

lemma scan_from_None: "find data ZSTD_MAGIC pos = None \<Longrightarrow> scan_from data pos = []"
  by (simp add: scan_from.simps [of data pos])

lemma scan_from_Some:
  "find data ZSTD_MAGIC pos = Some p \<Longrightarrow> scan_from data pos = p # scan_from data (p + 4)"
  by (simp add: scan_from.simps [of data pos] length_ZSTD_MAGIC)

text \<open>Nothing is lost by resuming the search at the end of the block.\<close>

lemma scan_from_block_end:
  assumes "find data ZSTD_MAGIC pos = Some p"
  shows "scan_from data (block_end_of data p) = scan_from data (p + 4)"
proof -
  let ?be = "block_end_of data p"
  let ?n = "length data"
  from block_end_of_bounds [OF assms] have b: "p + 4 \<le> ?be" "?be \<le> ?n" by simp_all
  have none: "\<not> occurs_at data i" if "p + 4 \<le> i" "i < ?be" for i
  proof (cases "find data ZSTD_MAGIC (p + 4)")
    case None
    from that b have "i + length ZSTD_MAGIC \<le> ?n \<or> \<not> i + 4 \<le> ?n"
      by (simp add: length_ZSTD_MAGIC)
    with find_None [OF None that(1)] show ?thesis
      by (auto simp: occurs_at_def length_ZSTD_MAGIC)
  next
    case (Some q)
    then have "?be \<le> q" by (simp add: block_end_of_def)
    with that have "i < q" by simp
    with find_Some [OF Some] that(1) show ?thesis
      by (auto simp: occurs_at_def length_ZSTD_MAGIC)
  qed
  have "[p + 4..<?n] = [p + 4..<?be] @ [?be..<?n]"
    using b by (metis le_Suc_ex upt_add_eq_append)
  then have "filter (occurs_at data) [p + 4..<?n]
               = filter (occurs_at data) [p + 4..<?be] @ filter (occurs_at data) [?be..<?n]"
    by (simp only: filter_append)
  moreover have "filter (occurs_at data) [p + 4..<?be] = []"
    using none by (simp add: filter_empty_conv)
  ultimately show ?thesis by (simp only: scan_from_filter append_Nil)
qed

lemma block_end_of_window:
  "block_end_of data p
     = (case scan_from data (p + 4) of
          [] \<Rightarrow> min (length data) (p + MAX_BLOCK_SIZE)
        | q # qs \<Rightarrow> min q (p + MAX_BLOCK_SIZE))"
proof (cases "find data ZSTD_MAGIC (p + 4)")
  case None
  then show ?thesis by (simp add: block_end_of_def scan_from_None)
next
  case (Some q)
  then show ?thesis by (simp add: block_end_of_def scan_from_Some)
qed

lemma windows_Cons:
  "windows n (p # ps)
     = (p, case ps of [] \<Rightarrow> min n (p + MAX_BLOCK_SIZE) | q # qs \<Rightarrow> min q (p + MAX_BLOCK_SIZE))
       # windows n ps"
  by (cases ps) simp_all

lemma ppk_loop_visits_windows:
  "ppk_loop e file_name file_data offset block_idx processed_blocks extracted_blocks st
     = visit_windows e file_name file_data
         (windows (length file_data) (scan_from file_data offset))
         block_idx processed_blocks extracted_blocks st"
proof (induction e file_name file_data offset block_idx processed_blocks extracted_blocks st
    rule: ppk_loop.induct)
  case (1 e file_name file_data offset block_idx processed_blocks extracted_blocks st)
  note loop = ppk_loop.simps [of e file_name file_data offset block_idx processed_blocks
      extracted_blocks st]
  show ?case
  proof (cases "offset < length file_data")
    case False
    then show ?thesis by (simp add: loop scan_from_beyond)
  next
    case True
    show ?thesis
    proof (cases "find file_data ZSTD_MAGIC offset")
      case None
      with True show ?thesis by (simp add: loop scan_from_None)
    next
      case (Some magic_pos)
      let ?be = "block_end_of file_data magic_pos"
      let ?zd = "take (?be - magic_pos) (drop magic_pos file_data)"
      let ?st = "emit [Block_found magic_pos ?be] st"
      have w: "windows (length file_data) (scan_from file_data offset)
                 = (magic_pos, ?be)
                   # windows (length file_data) (scan_from file_data ?be)"
        by (simp only: scan_from_Some [OF Some] windows_Cons scan_from_block_end [OF Some]
            block_end_of_window [of file_data magic_pos, symmetric])
      obtain out st' where pb: "process_block e file_name block_idx ?zd ?st = (out, st')"
        by (cases "process_block e file_name block_idx ?zd ?st")
      show ?thesis
      proof (cases out)
        case Block_skipped
        from "1.IH"(1) [OF True Some refl refl pb [unfolded Block_skipped, symmetric] refl]
        show ?thesis
          using True Some pb Block_skipped by (simp add: loop w Let_def)
      next
        case Block_extracted
        from "1.IH"(2) [OF True Some refl refl pb [unfolded Block_extracted, symmetric] refl]
        show ?thesis
          using True Some pb Block_extracted by (simp add: loop w Let_def)
      next
        case Block_raised
        then show ?thesis
          using True Some pb by (simp add: loop w Let_def)
      qed
    qed
  qed
qed


lemma small_block_discarded:
  "length zstd_data < 1024 \<Longrightarrow>
     process_block e file_name block_idx zstd_data st = (Block_skipped, emit [Too_small] st)"
  by (simp add: process_block_def)

lemma windows_proper:
  assumes "sorted_wrt (\<lambda>a b. a + 4 \<le> b) ps" and "\<forall>p \<in> set ps. p + 4 \<le> n"
  shows "\<forall>w \<in> set (windows n ps).
           fst w + 4 \<le> snd w \<and> snd w \<le> n \<and> snd w \<le> fst w + MAX_BLOCK_SIZE"
  using assms
proof (induction n ps rule: windows.induct)
  case (1 n)
  show ?case by simp
next
  case (2 n p)
  then show ?case by (simp add: MAX_BLOCK_SIZE_def)
next
  case (3 n p q ps)
  from 3 have "\<forall>w \<in> set (windows n (q # ps)).
           fst w + 4 \<le> snd w \<and> snd w \<le> n \<and> snd w \<le> fst w + MAX_BLOCK_SIZE"
    by simp
  moreover from "3.prems" have "p + 4 \<le> q" "q \<le> n" by auto
  ultimately show ?case by (simp add: MAX_BLOCK_SIZE_def)
qed

lemma scanned_in_buffer: "\<forall>p \<in> set (scan_zstd_frames data). p + 4 \<le> length data"
  by (simp add: scan_zstd_frames_def scan_from_filter occurs_at_def)

text \<open>
  Claim C6.  \<open>process_ppk_file\<close> visits, in order, one block for every scanned signature;
  the block of the signature at \<open>start_offset\<close> is exactly the bytes
  \<open>[start_offset, end_offset)\<close>, where \<open>end_offset\<close> is the next scanned signature (the end
  of the buffer when there is none) or \<open>start_offset + MAX_BLOCK_SIZE\<close>, whichever is
  smaller, with \<open>MAX_BLOCK_SIZE\<close> 20 MiB; each block is a proper range of the buffer; and a
  block shorter than 1024 bytes is discarded at once: the decompressor is not called, no
  fingerprint is tested or recorded, and nothing is saved.
\<close>

theorem process_ppk_file_windows:
  "process_ppk_file e file_name (Some file_data) st
     = visit_windows e file_name file_data
         (windows (length file_data) (scan_zstd_frames file_data)) 0 0 0 st
   \<and> MAX_BLOCK_SIZE = 20971520
   \<and> (\<forall>w \<in> set (windows (length file_data) (scan_zstd_frames file_data)).
         fst w + 4 \<le> snd w \<and> snd w \<le> length file_data \<and> snd w \<le> fst w + MAX_BLOCK_SIZE)
   \<and> (length zstd_data < 1024 \<longrightarrow>
         process_block e file_name block_idx zstd_data st = (Block_skipped, emit [Too_small] st))"
proof -
  have A: "process_ppk_file e file_name (Some file_data) st
     = visit_windows e file_name file_data
         (windows (length file_data) (scan_zstd_frames file_data)) 0 0 0 st"
    by (simp only: process_ppk_file_def option.case scan_zstd_frames_def
        ppk_loop_visits_windows)
  have B: "MAX_BLOCK_SIZE = 20971520" by (simp add: MAX_BLOCK_SIZE_def)
  have "sorted_wrt (\<lambda>a b. a + 4 \<le> b) (scan_zstd_frames file_data)"
  proof -
    have asc: "sorted_wrt (<) (filter (occurs_at file_data) [0..<length file_data])"
      by (simp add: sorted_wrt_filter)
    have gap: "a + 4 \<le> b"
      if "a \<in> set (filter (occurs_at file_data) [0..<length file_data])"
        and "b \<in> set (filter (occurs_at file_data) [0..<length file_data])" and "a < b"
      for a b
    proof (rule ccontr)
      assume "\<not> a + 4 \<le> b"
      with that have "occurs_at file_data a" "a < b" "b < a + 4" "occurs_at file_data b"
        by simp_all
      then show False using no_self_overlap [of file_data a b] by simp
    qed
    from asc have "sorted_wrt (\<lambda>a b. a + 4 \<le> b)
                     (filter (occurs_at file_data) [0..<length file_data])"
      by (rule sorted_wrt_mono_rel [rotated]) (rule gap)
    then show ?thesis by (simp only: scan_zstd_frames_def scan_from_filter)
  qed
  from windows_proper [OF this scanned_in_buffer]
  have C: "\<forall>w \<in> set (windows (length file_data) (scan_zstd_frames file_data)).
         fst w + 4 \<le> snd w \<and> snd w \<le> length file_data \<and> snd w \<le> fst w + MAX_BLOCK_SIZE" .
  have D: "length zstd_data < 1024 \<longrightarrow>
         process_block e file_name block_idx zstd_data st = (Block_skipped, emit [Too_small] st)"
    by (rule impI) (rule small_block_discarded)
  show ?thesis by (rule conjI [OF A conjI [OF B conjI [OF C D]]])
qed

lemma windows_two: "windows 26 [0, 13] = [(0, 13), (13, 26)]"
  by (simp add: MAX_BLOCK_SIZE_def)

lemma two_small_blocks:
  "visit_windows sample_env ''00000001'' two_png_frames [(0, 13), (13, 26)] 0 0 0
       empty_ppk_store
     = (Ppk_success 2 0,
        \<lparr>DUPLICATE_MD5 = {}, saved = [],
         trace = [Block_found 0 13, Too_small, Block_found 13 26, Too_small]\<rparr>)"
  by (simp add: process_block_def emit_def empty_ppk_store_def length_two_png_frames)

theorem process_ppk_file_windows_witness:
  "process_ppk_file sample_env ''00000001'' (Some two_png_frames) empty_ppk_store
     = (Ppk_success 2 0,
        \<lparr>DUPLICATE_MD5 = {}, saved = [],
         trace = [Block_found 0 13, Too_small, Block_found 13 26, Too_small]\<rparr>)
   \<and> length png_frame < 1024
   \<and> process_block sample_env ''00000001'' 0 png_frame empty_ppk_store
       = (Block_skipped, emit [Too_small] empty_ppk_store)"
proof -
  note t = process_ppk_file_windows [where e = sample_env and file_name = "''00000001''"
      and file_data = two_png_frames and st = empty_ppk_store and zstd_data = png_frame
      and block_idx = 0]
  have l: "length png_frame < 1024" by (simp add: length_png_frame)
  from t have "process_ppk_file sample_env ''00000001'' (Some two_png_frames) empty_ppk_store
     = visit_windows sample_env ''00000001'' two_png_frames
         (windows (length two_png_frames) (scan_zstd_frames two_png_frames)) 0 0 0
         empty_ppk_store"
    by (rule conjunct1)
  then have a: "process_ppk_file sample_env ''00000001'' (Some two_png_frames) empty_ppk_store
     = (Ppk_success 2 0,
        \<lparr>DUPLICATE_MD5 = {}, saved = [],
         trace = [Block_found 0 13, Too_small, Block_found 13 26, Too_small]\<rparr>)"
    by (simp only: length_two_png_frames scan_two windows_two two_small_blocks)
  from t have "length png_frame < 1024 \<longrightarrow>
         process_block sample_env ''00000001'' 0 png_frame empty_ppk_store
           = (Block_skipped, emit [Too_small] empty_ppk_store)"
    by (rule conjunct2 [OF conjunct2 [OF conjunct2]])
  from mp [OF this l] a l show ?thesis by (intro conjI)
qed


section \<open>Fingerprints of blocks\<close>












section \<open>What the fingerprint is computed from\<close>

text \<open>The actions of a task of the command-line tool that nothing ends early, in order.\<close>

definition cli_plan :: "env \<Rightarrow> nat \<Rightarrow> nat \<Rightarrow> bytes \<Rightarrow> event list" where
  "cli_plan e frame_start frame_idx decompressed =
     [Decompress_called frame_idx frame_start,
      Membership_tested frame_idx (md5 e decompressed),
      Classified frame_idx,
      Mkdir_called frame_idx (category_of (detect_file_extension decompressed)),
      File_written frame_idx
        (Frame_file (category_of (detect_file_extension decompressed)) (frame_idx + 1)
           (detect_file_extension decompressed)),
      Fingerprint_added frame_idx (md5 e decompressed)]"

lemma cli_task_fingerprint:
  assumes "decompress e (drop frame_start data) = Some decompressed"
  shows "case cli_extract_single_frame e data frame_start frame_idx st of
     ((result, msg), st') \<Rightarrow>
        prefix (events st @ take 2 (cli_plan e frame_start frame_idx decompressed)) (events st')
        \<and> prefix (events st') (events st @ cli_plan e frame_start frame_idx decompressed)
        \<and> extracted_hashes st'
            = (if result then insert (md5 e decompressed) (extracted_hashes st)
               else extracted_hashes st)
        \<and> (if md5 e decompressed \<in> extracted_hashes st
            then \<not> result \<and> msg = Skipped_duplicate frame_idx frame_start (md5 e decompressed)
                 \<and> events st' = events st @ take 2 (cli_plan e frame_start frame_idx decompressed)
            else result = (events st' = events st @ cli_plan e frame_start frame_idx decompressed))
        \<and> (result \<longrightarrow>
              msg = Extracted frame_idx frame_start
                      (Frame_file (category_of (detect_file_extension decompressed))
                         (frame_idx + 1) (detect_file_extension decompressed))
                      (length decompressed) (md5 e decompressed))"
  using assms
  by (auto simp: cli_extract_single_frame_def Let_def logged_def cli_plan_def)

lemma gui_task_fingerprint:
  assumes "decompress e (drop frame_start data) = Some decompressed"
  shows "case gui_extract_single_frame e stop data frame_start frame_idx md ty st of
     ((ok, msg, info), st') \<Rightarrow>
        extracted_hashes st'
          = (if ok \<and> md then insert (md5 e decompressed) (extracted_hashes st)
             else extracted_hashes st)
        \<and> (ok \<longrightarrow>
              msg = Extracted frame_idx frame_start
                      (Frame_file
                         (category_of (if ty then detect_file_extension decompressed else ''''))
                         (frame_idx + 1) (if ty then detect_file_extension decompressed else ''''))
                      (length decompressed) (md5 e decompressed)
              \<and> (md \<longrightarrow> md5 e decompressed \<notin> extracted_hashes st))
        \<and> (md \<and> md5 e decompressed \<in> extracted_hashes st \<and> \<not> is_interrupted msg \<longrightarrow>
              msg = Skipped_duplicate frame_idx frame_start (md5 e decompressed)
              \<and> last (events st') = Membership_tested frame_idx (md5 e decompressed))"
  using assms
  by (auto simp: gui_extract_single_frame_def stop_flag_def logged_def Let_def
      is_interrupted_def)

lemma failed_frame_no_fingerprint:
  assumes "decompress e (drop frame_start data) = None"
  shows "cli_extract_single_frame e data frame_start frame_idx st
           = ((False, Decompress_failed frame_idx frame_start),
              logged [Decompress_called frame_idx frame_start] st)"
  using assms by (simp add: cli_extract_single_frame_def Let_def)

lemma block_fingerprint:
  assumes "1024 \<le> length zstd_data"
  shows "case process_block e file_name block_idx zstd_data st of
     (out, st') \<Rightarrow>
        DUPLICATE_MD5 st' = insert (md5 e zstd_data) (DUPLICATE_MD5 st)
        \<and> (if md5 e zstd_data \<in> DUPLICATE_MD5 st
            then out = Block_skipped \<and> trace st' = trace st @ [Md5_seen (md5 e zstd_data)]
            else prefix (trace st @ [Md5_added (md5 e zstd_data),
                                     Block_decompress_called zstd_data]) (trace st'))"
  using assms
  by (auto simp: process_block_def Let_def emit_def split: option.split)


text \<open>
  Claim C7.  The fingerprint is a value of 128 bits given by the hash function alone.  In
  the two NPK tools, which decompress everything from the frame's offset on, it is the hash
  of the decompressed payload: the decompressor is called first, the fingerprint tested for
  membership and, after the write, added to the set is \<open>md5 e decompressed\<close>, and it is the
  one the message of an extracted or a duplicate frame carries.  In the PPK tool, which
  cuts blocks, it is the hash of the raw block \<open>zstd_data\<close>: the test and the addition come
  before the decompressor is called, and a block whose fingerprint is already in the set is
  skipped without decompressing.
\<close>

theorem fingerprint_of_payload_or_raw_block:
  "(decompress e (drop frame_start data) = Some decompressed \<longrightarrow>
      size (md5 e decompressed) = 128
      \<and> (case cli_extract_single_frame e data frame_start frame_idx st of
           ((result, msg), st') \<Rightarrow>
             prefix (events st @ take 2 (cli_plan e frame_start frame_idx decompressed))
               (events st')
             \<and> prefix (events st') (events st @ cli_plan e frame_start frame_idx decompressed)
             \<and> extracted_hashes st'
                 = (if result then insert (md5 e decompressed) (extracted_hashes st)
                    else extracted_hashes st)
             \<and> (if md5 e decompressed \<in> extracted_hashes st
                 then \<not> result
                      \<and> msg = Skipped_duplicate frame_idx frame_start (md5 e decompressed)
                      \<and> events st'
                          = events st @ take 2 (cli_plan e frame_start frame_idx decompressed)
                 else result
                        = (events st'
                             = events st @ cli_plan e frame_start frame_idx decompressed))
             \<and> (result \<longrightarrow>
                   msg = Extracted frame_idx frame_start
                           (Frame_file (category_of (detect_file_extension decompressed))
                              (frame_idx + 1) (detect_file_extension decompressed))
                           (length decompressed) (md5 e decompressed)))
      \<and> (case gui_extract_single_frame e stop data frame_start frame_idx enable_md5
                enable_type_detect st of
           ((ok, msg, info), st') \<Rightarrow>
             prefix (events st')
               (events st @ checkpoint_plan e stop data frame_start frame_idx enable_md5
                              enable_type_detect (polls st))
             \<and> (ok \<longrightarrow>
                   events st'
                     = events st @ checkpoint_plan e stop data frame_start frame_idx enable_md5
                                     enable_type_detect (polls st))
             \<and> extracted_hashes st'
                 = (if ok \<and> enable_md5
                    then insert (md5 e decompressed) (extracted_hashes st)
                    else extracted_hashes st)
             \<and> (ok \<longrightarrow>
                   msg = Extracted frame_idx frame_start
                           (Frame_file
                              (category_of (if enable_type_detect
                                            then detect_file_extension decompressed else ''''))
                              (frame_idx + 1)
                              (if enable_type_detect
                               then detect_file_extension decompressed else ''''))
                           (length decompressed) (md5 e decompressed)
                   \<and> (enable_md5 \<longrightarrow> md5 e decompressed \<notin> extracted_hashes st))
             \<and> (enable_md5 \<and> md5 e decompressed \<in> extracted_hashes st
                  \<and> \<not> is_interrupted msg \<longrightarrow>
                   msg = Skipped_duplicate frame_idx frame_start (md5 e decompressed)
                   \<and> last (events st') = Membership_tested frame_idx (md5 e decompressed))))
   \<and> (decompress e (drop frame_start data) = None \<longrightarrow>
        cli_extract_single_frame e data frame_start frame_idx st
          = ((False, Decompress_failed frame_idx frame_start),
             logged [Decompress_called frame_idx frame_start] st))
   \<and> (1024 \<le> length zstd_data \<longrightarrow>
        size (md5 e zstd_data) = 128
        \<and> (case process_block e file_name block_idx zstd_data pst of
             (out, pst') \<Rightarrow>
               DUPLICATE_MD5 pst' = insert (md5 e zstd_data) (DUPLICATE_MD5 pst)
               \<and> (if md5 e zstd_data \<in> DUPLICATE_MD5 pst
                   then out = Block_skipped
                        \<and> trace pst' = trace pst @ [Md5_seen (md5 e zstd_data)]
                   else prefix (trace pst @ [Md5_added (md5 e zstd_data),
                                             Block_decompress_called zstd_data])
                          (trace pst'))))
   \<and> (length zstd_data < 1024 \<longrightarrow>
        process_block e file_name block_idx zstd_data pst = (Block_skipped, emit [Too_small] pst))"
proof -
  have A: "decompress e (drop frame_start data) = Some decompressed \<longrightarrow>
      size (md5 e decompressed) = 128
      \<and> (case cli_extract_single_frame e data frame_start frame_idx st of
           ((result, msg), st') \<Rightarrow>
             prefix (events st @ take 2 (cli_plan e frame_start frame_idx decompressed))
               (events st')
             \<and> prefix (events st') (events st @ cli_plan e frame_start frame_idx decompressed)
             \<and> extracted_hashes st'
                 = (if result then insert (md5 e decompressed) (extracted_hashes st)
                    else extracted_hashes st)
             \<and> (if md5 e decompressed \<in> extracted_hashes st
                 then \<not> result
                      \<and> msg = Skipped_duplicate frame_idx frame_start (md5 e decompressed)
                      \<and> events st'
                          = events st @ take 2 (cli_plan e frame_start frame_idx decompressed)
                 else result
                        = (events st'
                             = events st @ cli_plan e frame_start frame_idx decompressed))
             \<and> (result \<longrightarrow>
                   msg = Extracted frame_idx frame_start
                           (Frame_file (category_of (detect_file_extension decompressed))
                              (frame_idx + 1) (detect_file_extension decompressed))
                           (length decompressed) (md5 e decompressed)))
      \<and> (case gui_extract_single_frame e stop data frame_start frame_idx enable_md5
                enable_type_detect st of
           ((ok, msg, info), st') \<Rightarrow>
             prefix (events st')
               (events st @ checkpoint_plan e stop data frame_start frame_idx enable_md5
                              enable_type_detect (polls st))
             \<and> (ok \<longrightarrow>
                   events st'
                     = events st @ checkpoint_plan e stop data frame_start frame_idx enable_md5
                                     enable_type_detect (polls st))
             \<and> extracted_hashes st'
                 = (if ok \<and> enable_md5
                    then insert (md5 e decompressed) (extracted_hashes st)
                    else extracted_hashes st)
             \<and> (ok \<longrightarrow>
                   msg = Extracted frame_idx frame_start
                           (Frame_file
                              (category_of (if enable_type_detect
                                            then detect_file_extension decompressed else ''''))
                              (frame_idx + 1)
                              (if enable_type_detect
                               then detect_file_extension decompressed else ''''))
                           (length decompressed) (md5 e decompressed)
                   \<and> (enable_md5 \<longrightarrow> md5 e decompressed \<notin> extracted_hashes st))
             \<and> (enable_md5 \<and> md5 e decompressed \<in> extracted_hashes st
                  \<and> \<not> is_interrupted msg \<longrightarrow>
                   msg = Skipped_duplicate frame_idx frame_start (md5 e decompressed)
                   \<and> last (events st') = Membership_tested frame_idx (md5 e decompressed)))"
  proof
    assume d: "decompress e (drop frame_start data) = Some decompressed"
    obtain ok msg info st' where
      g: "gui_extract_single_frame e stop data frame_start frame_idx enable_md5
                enable_type_detect st = ((ok, msg, info), st')"
      by (metis prod.exhaust)
    note a = gui_task_actions [where e = e and stop = stop and data = data
      and frame_start = frame_start and frame_idx = frame_idx and md = enable_md5
      and ty = enable_type_detect and st = st]
    from a [unfolded g prod.case]
    have a1: "prefix (events st')
               (events st @ checkpoint_plan e stop data frame_start frame_idx enable_md5
                              enable_type_detect (polls st))"
      and a2: "ok \<longrightarrow>
                   events st'
                     = events st @ checkpoint_plan e stop data frame_start frame_idx enable_md5
                                     enable_type_detect (polls st)"
      by (rule conjunct1, rule conjunct2 [OF conjunct2 [OF conjunct2 [OF conjunct2
              [OF conjunct2]]]])
    note f = gui_task_fingerprint [OF d, where stop = stop and frame_idx = frame_idx
        and md = enable_md5 and ty = enable_type_detect and st = st]
    note f' = f [unfolded g prod.case]
    have G: "case gui_extract_single_frame e stop data frame_start frame_idx enable_md5
                enable_type_detect st of
           ((ok, msg, info), st') \<Rightarrow>
             prefix (events st')
               (events st @ checkpoint_plan e stop data frame_start frame_idx enable_md5
                              enable_type_detect (polls st))
             \<and> (ok \<longrightarrow>
                   events st'
                     = events st @ checkpoint_plan e stop data frame_start frame_idx enable_md5
                                     enable_type_detect (polls st))
             \<and> extracted_hashes st'
                 = (if ok \<and> enable_md5
                    then insert (md5 e decompressed) (extracted_hashes st)
                    else extracted_hashes st)
             \<and> (ok \<longrightarrow>
                   msg = Extracted frame_idx frame_start
                           (Frame_file
                              (category_of (if enable_type_detect
                                            then detect_file_extension decompressed else ''''))
                              (frame_idx + 1)
                              (if enable_type_detect
                               then detect_file_extension decompressed else ''''))
                           (length decompressed) (md5 e decompressed)
                   \<and> (enable_md5 \<longrightarrow> md5 e decompressed \<notin> extracted_hashes st))
             \<and> (enable_md5 \<and> md5 e decompressed \<in> extracted_hashes st
                  \<and> \<not> is_interrupted msg \<longrightarrow>
                   msg = Skipped_duplicate frame_idx frame_start (md5 e decompressed)
                   \<and> last (events st') = Membership_tested frame_idx (md5 e decompressed))"
      unfolding g prod.case by (rule conjI [OF a1 conjI [OF a2 f']])
    have S: "size (md5 e decompressed) = 128" by (simp add: word_size)
    from cli_task_fingerprint [OF d, where frame_idx = frame_idx and st = st]
    show "size (md5 e decompressed) = 128
      \<and> (case cli_extract_single_frame e data frame_start frame_idx st of
           ((result, msg), st') \<Rightarrow>
             prefix (events st @ take 2 (cli_plan e frame_start frame_idx decompressed))
               (events st')
             \<and> prefix (events st') (events st @ cli_plan e frame_start frame_idx decompressed)
             \<and> extracted_hashes st'
                 = (if result then insert (md5 e decompressed) (extracted_hashes st)
                    else extracted_hashes st)
             \<and> (if md5 e decompressed \<in> extracted_hashes st
                 then \<not> result
                      \<and> msg = Skipped_duplicate frame_idx frame_start (md5 e decompressed)
                      \<and> events st'
                          = events st @ take 2 (cli_plan e frame_start frame_idx decompressed)
                 else result
                        = (events st'
                             = events st @ cli_plan e frame_start frame_idx decompressed))
             \<and> (result \<longrightarrow>
                   msg = Extracted frame_idx frame_start
                           (Frame_file (category_of (detect_file_extension decompressed))
                              (frame_idx + 1) (detect_file_extension decompressed))
                           (length decompressed) (md5 e decompressed)))
      \<and> (case gui_extract_single_frame e stop data frame_start frame_idx enable_md5
                enable_type_detect st of
           ((ok, msg, info), st') \<Rightarrow>
             prefix (events st')
               (events st @ checkpoint_plan e stop data frame_start frame_idx enable_md5
                              enable_type_detect (polls st))
             \<and> (ok \<longrightarrow>
                   events st'
                     = events st @ checkpoint_plan e stop data frame_start frame_idx enable_md5
                                     enable_type_detect (polls st))
             \<and> extracted_hashes st'
                 = (if ok \<and> enable_md5
                    then insert (md5 e decompressed) (extracted_hashes st)
                    else extracted_hashes st)
             \<and> (ok \<longrightarrow>
                   msg = Extracted frame_idx frame_start
                           (Frame_file
                              (category_of (if enable_type_detect
                                            then detect_file_extension decompressed else ''''))
                              (frame_idx + 1)
                              (if enable_type_detect
                               then detect_file_extension decompressed else ''''))
                           (length decompressed) (md5 e decompressed)
                   \<and> (enable_md5 \<longrightarrow> md5 e decompressed \<notin> extracted_hashes st))
             \<and> (enable_md5 \<and> md5 e decompressed \<in> extracted_hashes st
                  \<and> \<not> is_interrupted msg \<longrightarrow>
                   msg = Skipped_duplicate frame_idx frame_start (md5 e decompressed)
                   \<and> last (events st') = Membership_tested frame_idx (md5 e decompressed)))"
      by (rule conjI [OF S conjI [OF _ G]])
  qed
  have B: "decompress e (drop frame_start data) = None \<longrightarrow>
        cli_extract_single_frame e data frame_start frame_idx st
          = ((False, Decompress_failed frame_idx frame_start),
             logged [Decompress_called frame_idx frame_start] st)"
    by (rule impI) (rule failed_frame_no_fingerprint)
  have C: "1024 \<le> length zstd_data \<longrightarrow>
        size (md5 e zstd_data) = 128
        \<and> (case process_block e file_name block_idx zstd_data pst of
             (out, pst') \<Rightarrow>
               DUPLICATE_MD5 pst' = insert (md5 e zstd_data) (DUPLICATE_MD5 pst)
               \<and> (if md5 e zstd_data \<in> DUPLICATE_MD5 pst
                   then out = Block_skipped
                        \<and> trace pst' = trace pst @ [Md5_seen (md5 e zstd_data)]
                   else prefix (trace pst @ [Md5_added (md5 e zstd_data),
                                             Block_decompress_called zstd_data])
                          (trace pst')))"
  proof
    assume l: "1024 \<le> length zstd_data"
    have S: "size (md5 e zstd_data) = 128" by (simp add: word_size)
    from block_fingerprint [OF l, where e = e and file_name = file_name and block_idx = block_idx
        and st = pst]
    show "size (md5 e zstd_data) = 128
        \<and> (case process_block e file_name block_idx zstd_data pst of
             (out, pst') \<Rightarrow>
               DUPLICATE_MD5 pst' = insert (md5 e zstd_data) (DUPLICATE_MD5 pst)
               \<and> (if md5 e zstd_data \<in> DUPLICATE_MD5 pst
                   then out = Block_skipped
                        \<and> trace pst' = trace pst @ [Md5_seen (md5 e zstd_data)]
                   else prefix (trace pst @ [Md5_added (md5 e zstd_data),
                                             Block_decompress_called zstd_data])
                          (trace pst')))"
      by (rule conjI [OF S])
  qed
  have D: "length zstd_data < 1024 \<longrightarrow>
        process_block e file_name block_idx zstd_data pst = (Block_skipped, emit [Too_small] pst)"
    by (rule impI) (rule small_block_discarded)
  show ?thesis by (rule conjI [OF A conjI [OF B conjI [OF C D]]])
qed


lemma cli_png_frame:
  "cli_extract_single_frame sample_env png_frame 0 0 empty_store
     = ((True, Extracted 0 0 (Frame_file Image 1 ''.png'') 4 2347864178),
        \<lparr>extracted_hashes = {2347864178},
         written = [(Frame_file Image 1 ''.png'', PNG_MAGIC)], polls = 0,
         events = [Decompress_called 0 0, Membership_tested 0 2347864178, Classified 0,
                   Mkdir_called 0 Image, File_written 0 (Frame_file Image 1 ''.png''),
                   Fingerprint_added 0 2347864178]\<rparr>)"
  by (simp add: cli_extract_single_frame_def Let_def logged_def sample_env_def
      empty_store_def sample_decompress_png_frame sample_md5_PNG_MAGIC detect_PNG_MAGIC
      category_of_png) (simp add: PNG_MAGIC_def)

lemma ppk_padded_frame:
  "process_block sample_env ''00000001'' 0 padded_frame empty_ppk_store
     = (Block_extracted,
        \<lparr>DUPLICATE_MD5 = {sample_md5 padded_frame},
         saved = [(Block_file Image ''00000001'' 0 ''.png'', PNG_MAGIC)],
         trace = [Md5_added (sample_md5 padded_frame), Block_decompress_called padded_frame,
                  Saved (Block_file Image ''00000001'' 0 ''.png'')]\<rparr>)"
  by (simp add: process_block_def Let_def emit_def sample_env_def empty_ppk_store_def
      length_padded_frame sample_decompress_padded_frame detect_PNG_MAGIC category_of_png)

theorem fingerprint_of_payload_or_raw_block_witness:
  "decompress sample_env (drop 0 png_frame) = Some PNG_MAGIC
   \<and> 1024 \<le> length padded_frame
   \<and> extracted_hashes (snd (cli_extract_single_frame sample_env png_frame 0 0 empty_store))
       = insert (md5 sample_env PNG_MAGIC) (extracted_hashes empty_store)
   \<and> md5 sample_env PNG_MAGIC = 2347864178
   \<and> events (snd (cli_extract_single_frame sample_env png_frame 0 0 empty_store))
       = [Decompress_called 0 0, Membership_tested 0 2347864178, Classified 0,
          Mkdir_called 0 Image, File_written 0 (Frame_file Image 1 ''.png''),
          Fingerprint_added 0 2347864178]
   \<and> DUPLICATE_MD5 (snd (process_block sample_env ''00000001'' 0 padded_frame empty_ppk_store))
       = insert (md5 sample_env padded_frame) (DUPLICATE_MD5 empty_ppk_store)
   \<and> trace (snd (process_block sample_env ''00000001'' 0 padded_frame empty_ppk_store))
       = [Md5_added (sample_md5 padded_frame), Block_decompress_called padded_frame,
          Saved (Block_file Image ''00000001'' 0 ''.png'')]"
proof -
  note t = fingerprint_of_payload_or_raw_block [where e = sample_env and data = png_frame
      and frame_start = 0 and frame_idx = 0 and st = empty_store
      and decompressed = PNG_MAGIC and stop = "\<lambda>_. False"
      and enable_type_detect = True and zstd_data = padded_frame
      and file_name = "''00000001''" and block_idx = 0 and pst = empty_ppk_store]
  have d: "decompress sample_env (drop 0 png_frame) = Some PNG_MAGIC"
    by (simp add: sample_env_def sample_decompress_png_frame)
  have l: "1024 \<le> length padded_frame" by (simp add: length_padded_frame)
  have m: "md5 sample_env PNG_MAGIC = 2347864178"
    by (simp add: sample_env_def sample_md5_PNG_MAGIC)
  from t have "decompress sample_env (drop 0 png_frame) = Some PNG_MAGIC \<longrightarrow>
      size (md5 sample_env PNG_MAGIC) = 128
      \<and> (case cli_extract_single_frame sample_env png_frame 0 0 empty_store of
           ((result, msg), st') \<Rightarrow>
             prefix (events empty_store @ take 2 (cli_plan sample_env 0 0 PNG_MAGIC))
               (events st')
             \<and> prefix (events st') (events empty_store @ cli_plan sample_env 0 0 PNG_MAGIC)
             \<and> extracted_hashes st'
                 = (if result then insert (md5 sample_env PNG_MAGIC) (extracted_hashes empty_store)
                    else extracted_hashes empty_store)
             \<and> (if md5 sample_env PNG_MAGIC \<in> extracted_hashes empty_store
                 then \<not> result
                      \<and> msg = Skipped_duplicate 0 0 (md5 sample_env PNG_MAGIC)
                      \<and> events st'
                          = events empty_store @ take 2 (cli_plan sample_env 0 0 PNG_MAGIC)
                 else result
                        = (events st'
                             = events empty_store @ cli_plan sample_env 0 0 PNG_MAGIC))
             \<and> (result \<longrightarrow>
                   msg = Extracted 0 0
                           (Frame_file (category_of (detect_file_extension PNG_MAGIC))
                              (0 + 1) (detect_file_extension PNG_MAGIC))
                           (length PNG_MAGIC) (md5 sample_env PNG_MAGIC)))
      \<and> (case gui_extract_single_frame sample_env (\<lambda>_. False) png_frame 0 0 True True
                empty_store of
           ((ok, msg, info), st') \<Rightarrow>
             prefix (events st')
               (events empty_store @ checkpoint_plan sample_env (\<lambda>_. False) png_frame 0 0 True
                              True (polls empty_store))
             \<and> (ok \<longrightarrow>
                   events st'
                     = events empty_store @ checkpoint_plan sample_env (\<lambda>_. False) png_frame 0 0
                                     True True (polls empty_store))
             \<and> extracted_hashes st'
                 = (if ok \<and> True
                    then insert (md5 sample_env PNG_MAGIC) (extracted_hashes empty_store)
                    else extracted_hashes empty_store)
             \<and> (ok \<longrightarrow>
                   msg = Extracted 0 0
                           (Frame_file
                              (category_of (if True
                                            then detect_file_extension PNG_MAGIC else ''''))
                              (0 + 1)
                              (if True
                               then detect_file_extension PNG_MAGIC else ''''))
                           (length PNG_MAGIC) (md5 sample_env PNG_MAGIC)
                   \<and> (True \<longrightarrow> md5 sample_env PNG_MAGIC \<notin> extracted_hashes empty_store))
             \<and> (True \<and> md5 sample_env PNG_MAGIC \<in> extracted_hashes empty_store
                  \<and> \<not> is_interrupted msg \<longrightarrow>
                   msg = Skipped_duplicate 0 0 (md5 sample_env PNG_MAGIC)
                   \<and> last (events st') = Membership_tested 0 (md5 sample_env PNG_MAGIC)))"
    by (rule conjunct1)
  from mp [OF this d]
  have "case cli_extract_single_frame sample_env png_frame 0 0 empty_store of
           ((result, msg), st') \<Rightarrow>
             prefix (events empty_store @ take 2 (cli_plan sample_env 0 0 PNG_MAGIC))
               (events st')
             \<and> prefix (events st') (events empty_store @ cli_plan sample_env 0 0 PNG_MAGIC)
             \<and> extracted_hashes st'
                 = (if result then insert (md5 sample_env PNG_MAGIC) (extracted_hashes empty_store)
                    else extracted_hashes empty_store)
             \<and> (if md5 sample_env PNG_MAGIC \<in> extracted_hashes empty_store
                 then \<not> result
                      \<and> msg = Skipped_duplicate 0 0 (md5 sample_env PNG_MAGIC)
                      \<and> events st'
                          = events empty_store @ take 2 (cli_plan sample_env 0 0 PNG_MAGIC)
                 else result
                        = (events st'
                             = events empty_store @ cli_plan sample_env 0 0 PNG_MAGIC))
             \<and> (result \<longrightarrow>
                   msg = Extracted 0 0
                           (Frame_file (category_of (detect_file_extension PNG_MAGIC))
                              (0 + 1) (detect_file_extension PNG_MAGIC))
                           (length PNG_MAGIC) (md5 sample_env PNG_MAGIC))"
    by (rule conjunct1 [OF conjunct2])
  then have h: "extracted_hashes (snd (cli_extract_single_frame sample_env png_frame 0 0
                   empty_store))
       = insert (md5 sample_env PNG_MAGIC) (extracted_hashes empty_store)"
    by (simp add: cli_png_frame)
  have ev: "events (snd (cli_extract_single_frame sample_env png_frame 0 0 empty_store))
       = [Decompress_called 0 0, Membership_tested 0 2347864178, Classified 0,
          Mkdir_called 0 Image, File_written 0 (Frame_file Image 1 ''.png''),
          Fingerprint_added 0 2347864178]"
    by (simp add: cli_png_frame)
  from t have "1024 \<le> length padded_frame \<longrightarrow>
        size (md5 sample_env padded_frame) = 128
        \<and> (case process_block sample_env ''00000001'' 0 padded_frame empty_ppk_store of
             (out, pst') \<Rightarrow>
               DUPLICATE_MD5 pst'
                 = insert (md5 sample_env padded_frame) (DUPLICATE_MD5 empty_ppk_store)
               \<and> (if md5 sample_env padded_frame \<in> DUPLICATE_MD5 empty_ppk_store
                   then out = Block_skipped
                        \<and> trace pst'
                            = trace empty_ppk_store @ [Md5_seen (md5 sample_env padded_frame)]
                   else prefix (trace empty_ppk_store
                                  @ [Md5_added (md5 sample_env padded_frame),
                                     Block_decompress_called padded_frame])
                          (trace pst')))"
    by (rule conjunct1 [OF conjunct2 [OF conjunct2]])
  from mp [OF this l]
  have "case process_block sample_env ''00000001'' 0 padded_frame empty_ppk_store of
             (out, pst') \<Rightarrow>
               DUPLICATE_MD5 pst'
                 = insert (md5 sample_env padded_frame) (DUPLICATE_MD5 empty_ppk_store)
               \<and> (if md5 sample_env padded_frame \<in> DUPLICATE_MD5 empty_ppk_store
                   then out = Block_skipped
                        \<and> trace pst'
                            = trace empty_ppk_store @ [Md5_seen (md5 sample_env padded_frame)]
                   else prefix (trace empty_ppk_store
                                  @ [Md5_added (md5 sample_env padded_frame),
                                     Block_decompress_called padded_frame])
                          (trace pst'))"
    by (rule conjunct2)
  then have p: "DUPLICATE_MD5 (snd (process_block sample_env ''00000001'' 0 padded_frame
                   empty_ppk_store))
       = insert (md5 sample_env padded_frame) (DUPLICATE_MD5 empty_ppk_store)"
    by (simp add: ppk_padded_frame)
  have tr: "trace (snd (process_block sample_env ''00000001'' 0 padded_frame empty_ppk_store))
       = [Md5_added (sample_md5 padded_frame), Block_decompress_called padded_frame,
          Saved (Block_file Image ''00000001'' 0 ''.png'')]"
    by (simp add: ppk_padded_frame)
  show ?thesis
    by (rule conjI [OF d conjI [OF l conjI [OF h conjI [OF m conjI [OF ev conjI [OF p tr]]]]]])
qed


section \<open>Every task of the pool returns\<close>

text \<open>
  A step takes a task nearer to its return, so the steps added after the schedule bring
  every task to its return, whatever the schedule was.  \<open>rk\<close> bounds the steps a task
  still has to make; \<open>I\<close> is a property of the phases of a task and \<open>Q\<close> a property of the
  shared state that the steps keep.
\<close>

lemma count_list_replicate: "count_list (replicate k x) y = (if x = y then k else 0)"
  by (induction k) auto

lemma count_list_completion: "count_list (completion k n) j = (if j < n then k else 0)"
  by (induction n) (simp_all add: completion_def count_list_replicate)

lemma par_step_tasks:
  fixes rk :: "'p \<Rightarrow> nat"
  assumes step: "\<And>t ph st. I t ph \<Longrightarrow> Q st \<Longrightarrow>
      (case step t ph st of (ph', st') \<Rightarrow> I t ph' \<and> Q st' \<and> rk ph' \<le> rk ph - 1)"
    and init: "\<forall>j < length phs. j < length tasks \<longrightarrow> I (tasks ! j) (phs ! j)"
    and q: "Q st"
  shows "case par_step step tasks (phs, st) i of
     (phs', st') \<Rightarrow>
        length phs' = length phs \<and> Q st'
        \<and> (\<forall>j < length phs. j < length tasks \<longrightarrow>
              I (tasks ! j) (phs' ! j)
              \<and> rk (phs' ! j) \<le> rk (phs ! j) - (if j = i then 1 else 0))"
proof (cases "i < length tasks \<and> i < length phs")
  case False
  with init q show ?thesis by (auto simp: par_step_def)
next
  case True
  obtain ph' st' where s: "step (tasks ! i) (phs ! i) st = (ph', st')"
    by (cases "step (tasks ! i) (phs ! i) st")
  from True init have "I (tasks ! i) (phs ! i)" by simp
  from step [OF this q] s
  have a: "I (tasks ! i) ph'" "Q st'" "rk ph' \<le> rk (phs ! i) - 1" by simp_all
  with True s init show ?thesis by (auto simp: par_step_def nth_list_update)
qed

lemma par_exec_tasks:
  fixes rk :: "'p \<Rightarrow> nat"
  assumes step: "\<And>t ph st. I t ph \<Longrightarrow> Q st \<Longrightarrow>
      (case step t ph st of (ph', st') \<Rightarrow> I t ph' \<and> Q st' \<and> rk ph' \<le> rk ph - 1)"
    and init: "\<forall>j < length phs. j < length tasks \<longrightarrow> I (tasks ! j) (phs ! j)"
    and q: "Q st"
  shows "case par_exec step tasks schedule (phs, st) of
     (phs', st') \<Rightarrow>
        length phs' = length phs \<and> Q st'
        \<and> (\<forall>j < length phs. j < length tasks \<longrightarrow>
              I (tasks ! j) (phs' ! j)
              \<and> rk (phs' ! j) \<le> rk (phs ! j) - count_list schedule j)"
  using init q
proof (induction schedule arbitrary: phs st)
  case Nil
  then show ?case by (simp add: par_exec_def)
next
  case (Cons i schedule)
  obtain phs1 st1 where s: "par_step step tasks (phs, st) i = (phs1, st1)"
    by (cases "par_step step tasks (phs, st) i")
  from par_step_tasks [where step = step and I = I and Q = Q and rk = rk and tasks = tasks
      and phs = phs and st = st and i = i, OF step Cons.prems] s
  have a: "length phs1 = length phs" "Q st1"
    and b: "\<forall>j < length phs. j < length tasks \<longrightarrow>
              I (tasks ! j) (phs1 ! j)
              \<and> rk (phs1 ! j) \<le> rk (phs ! j) - (if j = i then 1 else 0)"
    by simp_all
  from a b have i1: "\<forall>j < length phs1. j < length tasks \<longrightarrow> I (tasks ! j) (phs1 ! j)"
    by simp
  obtain phs2 st2 where e: "par_exec step tasks schedule (phs1, st1) = (phs2, st2)"
    by (cases "par_exec step tasks schedule (phs1, st1)")
  from Cons.IH [OF i1 a(2)] e
  have c: "length phs2 = length phs1" "Q st2"
    and d: "\<forall>j < length phs1. j < length tasks \<longrightarrow>
              I (tasks ! j) (phs2 ! j)
              \<and> rk (phs2 ! j) \<le> rk (phs1 ! j) - count_list schedule j"
    by simp_all
  have "\<forall>j < length phs. j < length tasks \<longrightarrow>
              I (tasks ! j) (phs2 ! j)
              \<and> rk (phs2 ! j) \<le> rk (phs ! j) - count_list (i # schedule) j"
  proof (intro allI impI)
    fix j assume j: "j < length phs" "j < length tasks"
    with b have "rk (phs1 ! j) \<le> rk (phs ! j) - (if j = i then 1 else 0)" by simp
    moreover from d j a have "I (tasks ! j) (phs2 ! j)"
      "rk (phs2 ! j) \<le> rk (phs1 ! j) - count_list schedule j" by simp_all
    ultimately show "I (tasks ! j) (phs2 ! j)
              \<and> rk (phs2 ! j) \<le> rk (phs ! j) - count_list (i # schedule) j"
      by (cases "j = i") simp_all
  qed
  moreover have "par_exec step tasks (i # schedule) (phs, st) = (phs2, st2)"
    using s e by (simp add: par_exec_def)
  ultimately show ?case using a c by simp
qed

text \<open>The steps a task has still to make.\<close>

definition gui_rank :: "phase \<Rightarrow> nat" where
  "gui_rank ph =
     (case ph of At_entry \<Rightarrow> 7 | Before_decompress \<Rightarrow> 6 | Decompressing \<Rightarrow> 5
      | Checking _ \<Rightarrow> 4 | Before_write _ \<Rightarrow> 3 | Writing _ \<Rightarrow> 2 | Marking _ \<Rightarrow> 1
      | Returned _ \<Rightarrow> 0)"

definition cli_rank :: "cli_phase \<Rightarrow> nat" where
  "cli_rank ph =
     (case ph of Cli_entry \<Rightarrow> 3 | Cli_writing _ \<Rightarrow> 2 | Cli_marking _ \<Rightarrow> 1
      | Cli_returned _ \<Rightarrow> 0)"

lemma gui_task_step_rank:
  "gui_rank (fst (gui_task_step e stop data md ty task ph st)) \<le> gui_rank ph - 1"
  by (cases ph; cases task)
     (auto simp: gui_task_step_def gui_rank_def stop_flag_def Let_def split: option.split)

lemma cli_task_step_rank:
  "cli_rank (fst (cli_task_step e data task ph st)) \<le> cli_rank ph - 1"
  by (cases ph; cases task)
     (auto simp: cli_task_step_def cli_rank_def Let_def split: option.split)

lemma gui_rank_0: "gui_rank ph = 0 \<Longrightarrow> \<exists>r. ph = Returned r"
  by (cases ph) (auto simp: gui_rank_def)

lemma cli_rank_0: "cli_rank ph = 0 \<Longrightarrow> \<exists>r. ph = Cli_returned r"
  by (cases ph) (auto simp: cli_rank_def)

text \<open>The pool with \<open>k\<close> further steps for each task after the schedule.\<close>

lemma pool_tasks:
  fixes rk :: "'p \<Rightarrow> nat"
  assumes step: "\<And>t ph st. I t ph \<Longrightarrow> Q st \<Longrightarrow>
      (case step t ph st of (ph', st') \<Rightarrow> I t ph' \<and> Q st' \<and> rk ph' \<le> rk ph - 1)"
    and init: "\<forall>j < length tasks. I (tasks ! j) init"
    and q: "Q st"
    and k: "rk init \<le> k"
  shows "case par_exec step tasks (schedule @ completion k (length tasks))
                (replicate (length tasks) init, st) of
     (phs', st') \<Rightarrow>
        length phs' = length tasks \<and> Q st'
        \<and> (\<forall>j < length tasks. I (tasks ! j) (phs' ! j) \<and> rk (phs' ! j) = 0)"
proof -
  from init have i: "\<forall>j < length (replicate (length tasks) init). j < length tasks \<longrightarrow>
                       I (tasks ! j) (replicate (length tasks) init ! j)" by simp
  note t = par_exec_tasks [where step = step and I = I and Q = Q and rk = rk
      and tasks = tasks and phs = "replicate (length tasks) init" and st = st
      and schedule = "schedule @ completion k (length tasks)", OF step i q]
  obtain phs' st' where e: "par_exec step tasks (schedule @ completion k (length tasks))
                (replicate (length tasks) init, st) = (phs', st')"
    by (cases "par_exec step tasks (schedule @ completion k (length tasks))
                (replicate (length tasks) init, st)")
  from t [unfolded e prod.case] k
  have "length phs' = length tasks \<and> Q st'
        \<and> (\<forall>j < length tasks. I (tasks ! j) (phs' ! j) \<and> rk (phs' ! j) = 0)"
    by (auto simp: count_list_completion)
  then show ?thesis by (simp add: e)
qed

lemma map_filter_all:
  assumes "\<forall>j < length xs. f (xs ! j) \<noteq> None"
  shows "List.map_filter f xs = map (the \<circ> f) xs"
proof -
  from assms have "\<forall>x \<in> set xs. f x \<noteq> None" by (auto simp: in_set_conv_nth)
  then have "filter (\<lambda>x. f x \<noteq> None) xs = xs" by (simp add: filter_True)
  then show ?thesis by (simp add: List.map_filter_def)
qed

end
